theory Spec2Isabelle
  imports Main "HOL-Library.Sublist" "HOL-Library.Multiset"
begin

section \<open>Python values used by \<open>beta/colabfold_alphafold.py\<close>\<close>

text \<open>
  Strings are \<^typ>\<open>string\<close>, one \<^typ>\<open>char\<close> per character, and the model covers ASCII
  input: \<open>str.upper\<close> is modelled on the letters \<open>a\<close>..\<open>z\<close> only and the class \<open>\W\<close>
  as the complement of \<open>[A-Za-z0-9_]\<close>. Exceptions are values of \<open>error\<close>; a function that
  can raise returns \<open>error + 'a\<close> with \<open>Inl\<close> for the exception. Output and file-system
  effects are recorded as a list of \<open>event\<close>s in program order.
\<close>

datatype error =
  ValueError | NameError | UnboundLocalError | IndexError | KeyError
  | ZeroDivisionError | UnpicklingError | ConnectionError

datatype event =
  Print string
  | Makedirs string
  | Remove string string
  | WriteFile string
  | ReadFile string
  | Network string
  | System string

definition newline :: char where
  "newline = CHR 0x0A"

definition upper_char :: "char \<Rightarrow> char" where
  "upper_char c =
     (if 97 \<le> (of_char c :: nat) \<and> (of_char c :: nat) \<le> 122
      then char_of ((of_char c :: nat) - 32) else c)"

definition upper :: "string \<Rightarrow> string" where
  "upper s = map upper_char s"

definition is_upper :: "char \<Rightarrow> bool" where
  "is_upper c = (65 \<le> (of_char c :: nat) \<and> (of_char c :: nat) \<le> 90)"

definition is_lower :: "char \<Rightarrow> bool" where
  "is_lower c = (97 \<le> (of_char c :: nat) \<and> (of_char c :: nat) \<le> 122)"

definition is_digit :: "char \<Rightarrow> bool" where
  "is_digit c = (48 \<le> (of_char c :: nat) \<and> (of_char c :: nat) \<le> 57)"

definition is_colon :: "char \<Rightarrow> bool" where
  "is_colon c = (c = CHR '':'')"

definition is_slash :: "char \<Rightarrow> bool" where
  "is_slash c = (c = CHR ''/'')"

definition is_comma :: "char \<Rightarrow> bool" where
  "is_comma c = (c = CHR '','')"

text \<open>The character class \<open>[:/]\<close>.\<close>

definition is_sep :: "char \<Rightarrow> bool" where
  "is_sep c = (is_colon c \<or> is_slash c)"

text \<open>The character class \<open>[A-Z:/]\<close>.\<close>

definition is_seq_char :: "char \<Rightarrow> bool" where
  "is_seq_char c = (is_upper c \<or> is_sep c)"

text \<open>The character class \<open>[0-9:]\<close>.\<close>

definition is_homo_char :: "char \<Rightarrow> bool" where
  "is_homo_char c = (is_digit c \<or> is_colon c)"

text \<open>The character class \<open>\w\<close> (ASCII).\<close>

definition is_word :: "char \<Rightarrow> bool" where
  "is_word c = (is_upper c \<or> is_lower c \<or> is_digit c \<or> c = CHR ''_'')"

text \<open>\<open>re.sub("[^P]", "", s)\<close> and \<open>re.sub("[^P]+", "", s)\<close>: every character outside the
  class is deleted.\<close>

definition sub_outside :: "(char \<Rightarrow> bool) \<Rightarrow> string \<Rightarrow> string" where
  "sub_outside P s = filter P s"

text \<open>\<open>re.sub("[P]+", r, s)\<close>: every maximal run of characters of the class is replaced
  by the one character \<open>r\<close>.\<close>

function sub_runs :: "(char \<Rightarrow> bool) \<Rightarrow> char \<Rightarrow> string \<Rightarrow> string" where
  "sub_runs P r [] = []"
| "sub_runs P r (x # xs) =
     (if P x then r # sub_runs P r (dropWhile P xs) else x # sub_runs P r xs)"
  by pat_completeness auto
termination
  by (relation "measure (\<lambda>(P, r, s). length s)")
     (auto simp: less_Suc_eq_le length_dropWhile_le)

text \<open>\<open>re.sub("^[P]+", "", s)\<close>: the run of the class at the start of the string is
  deleted.\<close>

definition sub_leading :: "(char \<Rightarrow> bool) \<Rightarrow> string \<Rightarrow> string" where
  "sub_leading P s = dropWhile P s"

text \<open>\<open>re.sub("[P]+$", "", s)\<close>. Python's \<open>$\<close> matches at the end of the string and also
  just before a newline that ends the string, so a run of the class in front of a final
  newline is deleted too.\<close>

definition strip_end :: "(char \<Rightarrow> bool) \<Rightarrow> string \<Rightarrow> string" where
  "strip_end P s = rev (dropWhile P (rev s))"

definition sub_trailing :: "(char \<Rightarrow> bool) \<Rightarrow> string \<Rightarrow> string" where
  "sub_trailing P s =
     (if s \<noteq> [] \<and> last s = newline then strip_end P (butlast s) @ [newline]
      else strip_end P s)"

text \<open>\<open>s.replace(c, "")\<close> for a one-character \<open>c\<close>.\<close>

definition remove_char :: "char \<Rightarrow> string \<Rightarrow> string" where
  "remove_char c s = filter (\<lambda>x. x \<noteq> c) s"

text \<open>\<open>s.split(c)\<close> for a one-character separator: always at least one field.\<close>

fun split_on :: "char \<Rightarrow> string \<Rightarrow> string list" where
  "split_on c [] = [[]]"
| "split_on c (x # xs) =
     (if x = c then [] # split_on c xs
      else (case split_on c xs of
              [] \<Rightarrow> [[x]]
            | y # ys \<Rightarrow> (x # y) # ys))"

text \<open>\<open>sep.join(xs)\<close>.\<close>

fun join :: "string \<Rightarrow> string list \<Rightarrow> string" where
  "join sep [] = []"
| "join sep [x] = x"
| "join sep (x # y # ys) = x @ sep @ join sep (y # ys)"

text \<open>\<open>int(s)\<close> on a string of ASCII digits, the only strings the program passes to it
  (everything outside \<open>[0-9:]\<close> has been deleted and the string was split on \<open>:\<close>). The
  empty string raises \<open>ValueError\<close>.\<close>

definition digit_val :: "char \<Rightarrow> nat" where
  "digit_val c = (of_char c :: nat) - 48"

definition py_int :: "string \<Rightarrow> error + nat" where
  "py_int s =
     (if s \<noteq> [] \<and> list_all is_digit s
      then Inr (foldl (\<lambda>a c. 10 * a + digit_val c) 0 s)
      else Inl ValueError)"

text \<open>\<open>str(n)\<close> for a non-negative integer.\<close>

fun str_nat :: "nat \<Rightarrow> string" where
  "str_nat n =
     (if n < 10 then [char_of (48 + n)]
      else str_nat (n div 10) @ [char_of (48 + n mod 10)])"

declare str_nat.simps [simp del]

text \<open>A list comprehension \<open>[f(x) for x in xs]\<close> whose body can raise: the first exception
  ends it.\<close>

fun map_err :: "('a \<Rightarrow> error + 'b) \<Rightarrow> 'a list \<Rightarrow> error + 'b list" where
  "map_err f [] = Inr []"
| "map_err f (x # xs) =
     (case f x of
        Inl e \<Rightarrow> Inl e
      | Inr y \<Rightarrow> (case map_err f xs of Inl e \<Rightarrow> Inl e | Inr ys \<Rightarrow> Inr (y # ys)))"

section \<open>\<open>prep_inputs\<close>\<close>

text \<open>The job state \<open>I\<close>: the dictionary built by \<open>prep_inputs\<close>, one field per key.\<close>

record job =
  ori_sequence :: string
  sequence :: string
  seqs :: "string list"
  homooligomer :: string
  homooligomers :: "nat list"
  msas :: "string list list"
  deletion_matrices :: "nat list list list"
  full_sequence :: string
  lengths :: "nat list"
  output_dir :: string

text \<open>Lines 132-136: the five substitutions applied to the raw sequence.\<close>

definition normalize_sequence :: "string \<Rightarrow> string" where
  "normalize_sequence s =
     sub_trailing is_sep
       (sub_leading is_sep
         (sub_runs is_slash (CHR ''/'')
           (sub_runs is_colon (CHR '':'')
             (sub_outside is_seq_char (upper s)))))"

text \<open>Lines 138-143: the substitutions applied to the raw oligomer string, with the
  default \<open>"1"\<close> for an empty one.\<close>

definition normalize_homooligomer :: "string \<Rightarrow> string" where
  "normalize_homooligomer h =
     (let h1 = sub_trailing is_sep (sub_leading is_sep (sub_runs is_sep (CHR '':'') h));
          h2 = (if length h1 = 0 then ''1'' else h1)
      in sub_outside is_homo_char h2)"

text \<open>Lines 160-161: \<open>while len(seqs) > len(homooligomers): homooligomers.append(1)\<close>.\<close>

function append_ones :: "nat \<Rightarrow> nat list \<Rightarrow> nat list" where
  "append_ones n hs = (if n > length hs then append_ones n (hs @ [1]) else hs)"
  by pat_completeness auto
termination
  by (relation "measure (\<lambda>(n, hs). n - length hs)") auto

declare append_ones.simps [simp del]

definition mismatch_warning :: string where
  "mismatch_warning =
     ''WARNING: Mismatch between number of breaks ':' in 'sequence' and 'homooligomer' definition''"

text \<open>Lines 153-163: the oligomer list is made as long as the chain list. The result is
  the new list, the new oligomer string and what was printed.\<close>

definition adjust_homooligomer ::
  "bool \<Rightarrow> string list \<Rightarrow> string \<Rightarrow> nat list \<Rightarrow> nat list \<times> string \<times> event list" where
  "adjust_homooligomer verbose ss h hs =
     (if length ss \<noteq> length hs then
        (if length hs = 1 then
           (let hs' = replicate (length ss) (hs ! 0)
            in (hs', join '':'' (map str_nat hs'), []))
         else
           (let out = (if verbose then [Print mismatch_warning] else []);
                hs' = take (length ss) (append_ones (length ss) hs)
            in (hs', join '':'' (map str_nat hs'), out)))
      else (hs, h, []))"

text \<open>Line 166: each chain repeated by its multiplicity, concatenated.\<close>

definition expand_sequence :: "string list \<Rightarrow> nat list \<Rightarrow> string" where
  "expand_sequence ss hs = concat (map (\<lambda>(s, h). concat (replicate h s)) (zip ss hs))"

text \<open>
  \<open>prep_inputs(sequence, jobname, homooligomer, clean, verbose)\<close>. The hash function
  \<open>cf.get_hash\<close> and the listing of the output directory are parameters. The message of
  line 179 formats \<open>len(full_sequence)\<close>, a name that is bound nowhere in the function or
  the module (the sequence is \<open>I["full_sequence"]\<close>), so evaluating it raises \<open>NameError\<close>
  before anything is printed.
\<close>

definition prep_inputs ::
  "(string \<Rightarrow> string) \<Rightarrow> (string \<Rightarrow> string list) \<Rightarrow> string \<Rightarrow> string \<Rightarrow> string \<Rightarrow> bool \<Rightarrow> bool
     \<Rightarrow> error + (job \<times> event list)" where
  "prep_inputs get_hash listdir sequence0 jobname0 homooligomer0 clean verbose =
     (let sequence1 = normalize_sequence sequence0;
          jobname = sub_outside is_word jobname0;
          homooligomer1 = normalize_homooligomer homooligomer0
      in case map_err py_int (split_on (CHR '':'') homooligomer1) of
           Inl e \<Rightarrow> Inl e
         | Inr hs \<Rightarrow>
            (let ss = split_on (CHR '':'') (remove_char (CHR ''/'') sequence1);
                 (hs', homooligomer2, out1) = adjust_homooligomer verbose ss homooligomer1 hs;
                 full = expand_sequence ss hs';
                 dir = ''prediction_'' @ jobname @ ''_'' @ take 5 (get_hash full);
                 out2 = [Makedirs dir];
                 out3 = (if clean then map (Remove dir) (listdir dir) else []);
                 I = \<lparr> ori_sequence = sequence1,
                       sequence = remove_char (CHR '':'') (remove_char (CHR ''/'') sequence1),
                       seqs = ss,
                       homooligomer = homooligomer2,
                       homooligomers = hs',
                       msas = [],
                       deletion_matrices = [],
                       full_sequence = full,
                       lengths = map length ss,
                       output_dir = dir \<rparr>
             in if verbose \<and> length full > 1400 then Inl NameError
                else Inr (I, out1 @ out2 @ out3 @
                   (if verbose then
                      [Print (''homooligomer: '' @ homooligomer2),
                       Print (''total_length: '' @ str_nat (length full)),
                       Print (''working_directory: '' @ dir)]
                    else []))))"

section \<open>\<open>run_jackhmmer\<close>\<close>

text \<open>
  One streamed chunk of a database search, after the external parsers: the rows, deletion
  rows and target names of \<open>parsers.parse_stockholm(result['sto'])\<close> and the dictionary of
  \<open>parsers.parse_e_values_from_tblout(result['tbl'])\<close>. The e-values are floats that the
  program only compares, so they are values of any linear order \<open>'e\<close>.
\<close>

record 'e chunk =
  sto_msa :: "string list"
  sto_deletion_matrix :: "nat list list"
  sto_names :: "string list"
  tbl_e_values :: "string \<rightharpoonup> 'e"

text \<open>A hit: one element of \<open>zip(msa, deletion_matrix, target_names, e_values)\<close>.\<close>

type_synonym 'e hit = "string \<times> nat list \<times> string \<times> 'e"

definition hit_msa :: "'e hit \<Rightarrow> string" where
  "hit_msa h = fst h"

definition hit_deletion :: "'e hit \<Rightarrow> nat list" where
  "hit_deletion h = fst (snd h)"

definition hit_name :: "'e hit \<Rightarrow> string" where
  "hit_name h = fst (snd (snd h))"

definition hit_e_value :: "'e hit \<Rightarrow> 'e" where
  "hit_e_value h = snd (snd (snd h))"

text \<open>Lines 104-110 for chunk number \<open>i\<close>: a target name missing from the e-value
  dictionary raises \<open>KeyError\<close>; only the first chunk keeps its \<open>query\<close> row.\<close>

definition chunk_hits :: "nat \<Rightarrow> 'e chunk \<Rightarrow> error + 'e hit list" where
  "chunk_hits i r =
     (case map_err (\<lambda>t. case tbl_e_values r (hd (split_on (CHR ''/'') t)) of
                            None \<Rightarrow> Inl KeyError
                          | Some e \<Rightarrow> Inr e) (sto_names r) of
        Inl e \<Rightarrow> Inl e
      | Inr e_values \<Rightarrow>
          (let zipped_results =
                 zip (sto_msa r) (zip (sto_deletion_matrix r) (zip (sto_names r) e_values))
           in Inr (if i \<noteq> 0 then filter (\<lambda>x. hit_name x \<noteq> ''query'') zipped_results
                   else zipped_results)))"

text \<open>Lines 102-111: \<open>unsorted_results\<close>, the hits of all chunks in order.\<close>

fun unsorted_results :: "nat \<Rightarrow> 'e chunk list \<Rightarrow> error + 'e hit list" where
  "unsorted_results i [] = Inr []"
| "unsorted_results i (r # rs) =
     (case chunk_hits i r of
        Inl e \<Rightarrow> Inl e
      | Inr hs \<Rightarrow>
          (case unsorted_results (Suc i) rs of
             Inl e \<Rightarrow> Inl e
           | Inr rest \<Rightarrow> Inr (hs @ rest)))"

definition mgnify_max_hits :: nat where
  "mgnify_max_hits = 501"

text \<open>Lines 112-118 for one database: Python's \<open>sorted\<close> is a stable sort by the key, as
  \<^const>\<open>sort_key\<close> is. Unpacking \<open>zip(*sorted_by_evalue)\<close> into four names raises
  \<open>ValueError\<close> when there is no hit at all.\<close>

definition db_hits ::
  "string \<Rightarrow> ('e::linorder) chunk list \<Rightarrow> error + (string list \<times> nat list list \<times> string list)" where
  "db_hits db_name db_results =
     (case unsorted_results 0 db_results of
        Inl e \<Rightarrow> Inl e
      | Inr unsorted \<Rightarrow>
          (let sorted_by_evalue = sort_key hit_e_value unsorted
           in if sorted_by_evalue = [] then Inl ValueError
              else
                (let db_msas = map hit_msa sorted_by_evalue;
                     db_deletion_matrices = map hit_deletion sorted_by_evalue;
                     db_names = map hit_name sorted_by_evalue
                 in if db_name = ''mgnify''
                    then Inr (take mgnify_max_hits db_msas,
                              take mgnify_max_hits db_deletion_matrices,
                              take mgnify_max_hits db_names)
                    else Inr (db_msas, db_deletion_matrices, db_names))))"

text \<open>The cached bundle: the dictionary with the keys \<open>msas\<close>, \<open>deletion_matrices\<close> and
  \<open>names\<close>, one entry per database.\<close>

record msa_bundle =
  b_msas :: "string list list"
  b_deletion_matrices :: "nat list list list"
  b_names :: "string list list"

text \<open>What is stored under \<open>{prefix}.jackhmmer.pickle\<close>: nothing, a file that
  \<open>pickle.load\<close> cannot read, or a bundle.\<close>

datatype cache_file = Missing | Corrupt | Cached msa_bundle

text \<open>Lines 101-127: the loop over the databases. Each iteration appends the database's
  lists, prints the number of distinct rows and dumps the bundle built so far.\<close>

fun assemble ::
  "string \<Rightarrow> (string \<times> ('e::linorder) chunk list) list \<Rightarrow> msa_bundle \<Rightarrow> cache_file \<Rightarrow>
     error + (msa_bundle \<times> cache_file \<times> event list)" where
  "assemble path [] b c = Inr (b, c, [])"
| "assemble path ((db_name, db_results) # dbs) b c =
     (case db_hits db_name db_results of
        Inl e \<Rightarrow> Inl e
      | Inr (db_msas, db_deletion_matrices, db_names) \<Rightarrow>
          (let b' = \<lparr> b_msas = b_msas b @ [db_msas],
                      b_deletion_matrices = b_deletion_matrices b @ [db_deletion_matrices],
                      b_names = b_names b @ [db_names] \<rparr>;
               out = [Print (str_nat (length (remdups db_msas)) @ '' Sequences Found in '' @ db_name),
                      WriteFile path]
           in case assemble path dbs b' (Cached b') of
                Inl e \<Rightarrow> Inl e
              | Inr (b'', c'', out') \<Rightarrow> Inr (b'', c'', out @ out')))"

definition test_url :: "string \<Rightarrow> string" where
  "test_url source =
     ''https://storage.googleapis.com/alphafold-colab'' @ source @ ''/latest/uniref90_2021_03.fasta.1''"

definition db_url :: "string \<Rightarrow> string \<Rightarrow> string" where
  "db_url source file =
     ''https://storage.googleapis.com/alphafold-colab'' @ source @ ''/latest/'' @ file"

text \<open>
  \<open>run_jackhmmer(sequence, prefix)\<close>. \<open>race\<close> is the outcome of the first probe to complete
  (the mirror, or the exception that \<open>f.result()\<close> re-raises), \<open>query url sequence\<close> the
  chunks that the external search returns for a database, \<open>c\<close> the cache file of this
  prefix. The result is the returned triple as a bundle, the cache file afterwards and the
  effects. The cache is read with \<open>pickle.load\<close> whenever the file exists; there is no
  handler around it.
\<close>

definition run_jackhmmer ::
  "(error + string) \<Rightarrow> (string \<Rightarrow> string \<Rightarrow> ('e::linorder) chunk list) \<Rightarrow> cache_file \<Rightarrow>
     string \<Rightarrow> string \<Rightarrow> error + (msa_bundle \<times> cache_file \<times> event list)" where
  "run_jackhmmer race query c sequence0 prefix' =
     (let fasta_path = prefix' @ ''.fasta'';
          pickled_msa_path = prefix' @ ''.jackhmmer.pickle''
      in case c of
           Cached b \<Rightarrow> Inr (b, c, [WriteFile fasta_path, ReadFile pickled_msa_path])
         | Corrupt \<Rightarrow> Inl UnpicklingError
         | Missing \<Rightarrow>
            (case race of
               Inl e \<Rightarrow> Inl e
             | Inr source \<Rightarrow>
                (let u1 = db_url source ''uniref90_2021_03.fasta'';
                     u2 = db_url source ''bfd-first_non_consensus_sequences.fasta'';
                     u3 = db_url source ''mgy_clusters_2019_05.fasta'';
                     dbs = [(''uniref90'', query u1 sequence0),
                            (''smallbfd'', query u2 sequence0),
                            (''mgnify'', query u3 sequence0)]
                 in case assemble pickled_msa_path dbs
                           \<lparr> b_msas = [], b_deletion_matrices = [], b_names = [] \<rparr> c of
                      Inl e \<Rightarrow> Inl e
                    | Inr (b, c', out) \<Rightarrow>
                        Inr (b, c',
                             [WriteFile fasta_path] @
                             map (\<lambda>s. Network (test_url s)) ['''', ''-europe'', ''-asia''] @
                             map Network [u1, u2, u3] @ out))))"

text \<open>A chunk and a search used to evaluate the functions on concrete inputs.\<close>

definition sample_chunk :: "nat chunk" where
  "sample_chunk =
     \<lparr> sto_msa = [''AC'', ''A-'', ''GC''],
       sto_deletion_matrix = [[0, 0], [0, 1], [2, 0]],
       sto_names = [''query'', ''t1/1-2'', ''t2/3-4''],
       tbl_e_values = [''query'' \<mapsto> 0, ''t1'' \<mapsto> 7, ''t2'' \<mapsto> 3] \<rparr>"

definition sample_query :: "string \<Rightarrow> string \<Rightarrow> nat chunk list" where
  "sample_query url s = [sample_chunk, sample_chunk]"

text \<open>A synthetic search with \<open>n\<close> hits in one chunk: hit \<open>i\<close> has the e-value \<open>i\<close>, a name of
  \<open>i\<close> letters and a row of \<open>i\<close> residues, and the chunk lists the hits from the highest
  e-value down to the lowest.\<close>

definition synthetic_hit :: "nat \<Rightarrow> nat hit" where
  "synthetic_hit i = (replicate i (CHR ''A''), [i], replicate i (CHR ''t''), i)"

definition synthetic_chunk :: "nat \<Rightarrow> nat chunk" where
  "synthetic_chunk n =
     \<lparr> sto_msa = map (hit_msa \<circ> synthetic_hit) (rev [0..<n]),
       sto_deletion_matrix = map (hit_deletion \<circ> synthetic_hit) (rev [0..<n]),
       sto_names = map (hit_name \<circ> synthetic_hit) (rev [0..<n]),
       tbl_e_values = (\<lambda>name. Some (length name)) \<rparr>"

section \<open>\<open>do_subsample_msa\<close>\<close>

text \<open>
  The feature dictionary \<open>F\<close>: the four keys the function reads, as lists of rows, and all
  other keys in the extension of the record. \<open>F["msa"][idx]\<close> with an index array selects
  rows and raises \<open>IndexError\<close> for an index out of range.
\<close>

record features =
  msa :: "int list list"
  deletion_matrix_int :: "int list list"
  num_alignments :: "int list"
  residue_index :: "int list"

definition select_rows :: "'a list \<Rightarrow> nat list \<Rightarrow> error + 'a list" where
  "select_rows xs idx =
     (if list_all (\<lambda>i. i < length xs) idx then Inr (map (\<lambda>i. xs ! i) idx)
      else Inl IndexError)"

text \<open>
  \<open>do_subsample_msa(F, random_seed)\<close>. \<open>permutation seed xs\<close> stands for
  \<open>np.random.permutation(xs)\<close> after \<open>np.random.seed(seed)\<close>. The budget \<open>int(3E7/L)\<close> is
  a float division: it raises \<open>ZeroDivisionError\<close> for \<open>L = 0\<close>, and for every other length
  below \<open>2^53\<close> the rounded quotient truncates to the integer quotient \<open>30000000 div L\<close>
  (a quotient that is not an integer is at least \<open>1/L\<close> below the next integer, more than the
  rounding error).
\<close>

definition do_subsample_msa ::
  "(nat \<Rightarrow> nat list \<Rightarrow> nat list) \<Rightarrow> 'a features_scheme \<Rightarrow> nat \<Rightarrow>
     error + ('a features_scheme \<times> event list)" where
  "do_subsample_msa permutation F random_seed =
     (let N = length (msa F);
          L = length (residue_index F)
      in if L = 0 then Inl ZeroDivisionError
         else
           (let N' = 30000000 div L
            in if N > N' then
                 (let out = [Print (''whhhaaa... too many sequences ('' @ str_nat N @
                                    '') subsampling to '' @ str_nat N')];
                      idx = take N' (0 # permutation random_seed [1..<N])
                  in case select_rows (msa F) idx of
                       Inl e \<Rightarrow> Inl e
                     | Inr rows \<Rightarrow>
                        (case select_rows (deletion_matrix_int F) idx of
                           Inl e \<Rightarrow> Inl e
                         | Inr drows \<Rightarrow>
                            Inr (F\<lparr> msa := rows,
                                    deletion_matrix_int := drows,
                                    num_alignments :=
                                      replicate (length (num_alignments F)) (int N') \<rparr>,
                                 out)))
               else Inr (F, [])))"

text \<open>Inputs used to evaluate the function: a seed-independent permutation, a dictionary
  of three rows over a sequence of ten million residues, one of a single row over a
  sequence one residue longer than the constant of the budget, and one without residues.\<close>

definition reverse_permutation :: "nat \<Rightarrow> nat list \<Rightarrow> nat list" where
  "reverse_permutation seed xs = rev xs"

definition long_features :: features where
  "long_features =
     \<lparr> msa = [[1], [2], [3], [4]], deletion_matrix_int = [[0], [5], [6], [7]],
       num_alignments = [4], residue_index = replicate 10000000 0 \<rparr>"

definition over_budget_features :: features where
  "over_budget_features =
     \<lparr> msa = [[1]], deletion_matrix_int = [[0]], num_alignments = [1],
       residue_index = replicate 30000001 0 \<rparr>"

definition empty_features :: features where
  "empty_features =
     \<lparr> msa = [[]], deletion_matrix_int = [[]], num_alignments = [], residue_index = [] \<rparr>"

section \<open>\<open>prep_filter\<close>\<close>

text \<open>
  \<open>prep_filter\<close> returns either its argument or a shallow copy \<open>dict(I)\<close> of it, so job
  dictionaries live in a store: an address is an index into a list of dictionaries and
  \<open>dict(I)\<close> allocates the next index. A dictionary here also has the key \<open>chains\<close>, which
  only \<open>cf.trim_inputs\<close> sets. The values under the keys are modelled as immutable values:
  the function itself only rebinds keys of the copy, and the two functions of the module
  \<open>colabfold\<close> that receive values shared with the original are taken not to change them in
  place.
\<close>

record job_dict = job +
  chains :: "nat list option"

type_synonym store = "job_dict list"

text \<open>The dictionary returned by \<open>cf.trim_inputs\<close> and \<open>cf.cov_qid_filter\<close>: the keys it
  may carry.\<close>

record job_update =
  u_msas :: "string list list option"
  u_deletion_matrices :: "nat list list list option"
  u_ori_sequence :: "string option"
  u_chains :: "nat list option"

text \<open>\<open>d.update(u)\<close>.\<close>

definition dict_update :: "job_update \<Rightarrow> job_dict \<Rightarrow> job_dict" where
  "dict_update u d =
     d\<lparr> msas := (case u_msas u of None \<Rightarrow> msas d | Some v \<Rightarrow> v),
        deletion_matrices :=
          (case u_deletion_matrices u of None \<Rightarrow> deletion_matrices d | Some v \<Rightarrow> v),
        ori_sequence := (case u_ori_sequence u of None \<Rightarrow> ori_sequence d | Some v \<Rightarrow> v),
        chains := (case u_chains u of None \<Rightarrow> chains d | Some v \<Rightarrow> Some v) \<rparr>"

text \<open>The character class \<open>[0-9A-Z,-]\<close> and lines 347-350.\<close>

definition is_trim_char :: "char \<Rightarrow> bool" where
  "is_trim_char c = (is_digit c \<or> is_upper c \<or> is_comma c \<or> c = CHR ''-'')"

definition normalize_trim :: "string \<Rightarrow> string" where
  "normalize_trim trim =
     sub_trailing is_comma
       (sub_leading is_comma
         (sub_runs is_comma (CHR '','')
           (sub_outside is_trim_char (upper trim))))"

text \<open>\<open>xs[i]\<close> for a non-negative index.\<close>

definition index :: "'a list \<Rightarrow> nat \<Rightarrow> error + 'a" where
  "index xs i = (if i < length xs then Inr (xs ! i) else Inl IndexError)"

text \<open>Lines 355-364 on the copy \<open>d\<close>: the update by \<open>cf.trim_inputs\<close>, then the keys
  derived from it. A missing key \<open>chains\<close> raises \<open>KeyError\<close>, a chain number out of range
  \<open>IndexError\<close>.\<close>

definition trim_step ::
  "(string \<Rightarrow> string list list \<Rightarrow> nat list list list \<Rightarrow> string \<Rightarrow> bool \<Rightarrow> job_update) \<Rightarrow>
     string \<Rightarrow> bool \<Rightarrow> bool \<Rightarrow> job_dict \<Rightarrow> error + (job_dict \<times> event list)" where
  "trim_step trim_inputs trim trim_inverse verbose d =
     (let d1 = dict_update
                 (trim_inputs trim (msas d) (deletion_matrices d) (ori_sequence d) trim_inverse) d
      in case chains d1 of
           None \<Rightarrow> Inl KeyError
         | Some cs \<Rightarrow>
            (case map_err (index (homooligomers d1)) cs of
               Inl e \<Rightarrow> Inl e
             | Inr hs \<Rightarrow>
                (let ss = split_on (CHR '':'') (remove_char (CHR ''/'') (ori_sequence d1));
                     full = expand_sequence ss hs;
                     d2 = d1\<lparr> homooligomers := hs,
                              sequence := remove_char (CHR '':'')
                                            (remove_char (CHR ''/'') (ori_sequence d1)),
                              seqs := ss,
                              full_sequence := full \<rparr>
                 in Inr (d2,
                         if verbose
                         then [Print (''total_length: '' @ [CHR 0x27] @ str_nat (length full) @
                                      [CHR 0x27] @ '' after trimming'')]
                         else []))))"

text \<open>
  \<open>prep_filter(I, trim, trim_inverse, cov, qid, verbose)\<close> on the store \<open>h\<close>, with \<open>I\<close> an
  address. The result is the store afterwards, the returned address and what was printed.
  The thresholds are handed to \<open>cf.cov_qid_filter\<close> as they are (the program divides them
  by 100 first).
\<close>

definition prep_filter ::
  "(string \<Rightarrow> string list list \<Rightarrow> nat list list list \<Rightarrow> string \<Rightarrow> bool \<Rightarrow> job_update) \<Rightarrow>
   (string list list \<Rightarrow> nat list list list \<Rightarrow> string \<Rightarrow> int \<Rightarrow> int \<Rightarrow> job_update) \<Rightarrow>
     store \<Rightarrow> nat \<Rightarrow> string \<Rightarrow> bool \<Rightarrow> int \<Rightarrow> int \<Rightarrow> bool \<Rightarrow>
     error + (store \<times> nat \<times> event list)" where
  "prep_filter trim_inputs cov_qid_filter h I trim0 trim_inverse cov qid verbose =
     (let trim = normalize_trim trim0
      in if trim \<noteq> [] \<or> cov > 0 \<or> qid > 0 then
           (let mod_I = length h;
                h1 = h @ [h ! I]
            in case (if trim \<noteq> []
                     then (case trim_step trim_inputs trim trim_inverse verbose (h1 ! mod_I) of
                             Inl e \<Rightarrow> Inl e
                           | Inr (d, out) \<Rightarrow> Inr (h1[mod_I := d], out))
                     else Inr (h1, [])) of
                 Inl e \<Rightarrow> Inl e
               | Inr (h2, out) \<Rightarrow>
                  (let h3 = (if cov > 0 \<or> qid > 0
                             then h2[mod_I :=
                                       dict_update
                                         (cov_qid_filter (msas (h2 ! mod_I))
                                            (deletion_matrices (h2 ! mod_I))
                                            (ori_sequence (h2 ! mod_I)) cov qid)
                                         (h2 ! mod_I)]
                             else h2)
                   in Inr (h3, mod_I, out)))
         else Inr (h, I, []))"

text \<open>A job and two external functions used to evaluate \<open>prep_filter\<close>.\<close>

definition sample_job :: job_dict where
  "sample_job =
     \<lparr> ori_sequence = ''AC:GT'', sequence = ''ACGT'', seqs = [''AC'', ''GT''],
       homooligomer = ''1:2'', homooligomers = [1, 2],
       msas = [[''ACGT'', ''A-G-'']], deletion_matrices = [[[0, 0, 0, 0], [0, 1, 0, 0]]],
       full_sequence = ''ACGTGT'', lengths = [2, 2], output_dir = ''prediction_x_00000'',
       chains = None \<rparr>"

definition sample_trim_inputs ::
  "string \<Rightarrow> string list list \<Rightarrow> nat list list list \<Rightarrow> string \<Rightarrow> bool \<Rightarrow> job_update" where
  "sample_trim_inputs trim ms ds s trim_inverse =
     \<lparr> u_msas = Some (map (map (take 2)) ms),
       u_deletion_matrices = Some (map (map (take 2)) ds),
       u_ori_sequence = Some (take 2 s),
       u_chains = Some [0] \<rparr>"

definition sample_cov_qid_filter ::
  "string list list \<Rightarrow> nat list list list \<Rightarrow> string \<Rightarrow> int \<Rightarrow> int \<Rightarrow> job_update" where
  "sample_cov_qid_filter ms ds s cov qid =
     \<lparr> u_msas = Some (map (take 1) ms),
       u_deletion_matrices = Some (map (take 1) ds),
       u_ori_sequence = None,
       u_chains = None \<rparr>"

section \<open>\<open>prep_msa\<close>\<close>

text \<open>
  The functions that \<open>prep_msa\<close> calls outside this file are parameters: the uploaded
  files after parsing, the search service (in the unpaired stage with \<open>parsers.parse_a3m\<close>
  applied to each of its answers, in the pairing stage its raw answers), and
  \<open>run_jackhmmer\<close> for a chain (with its cache and network fixed). The redundancy filter is
  a parameter of its own: from the rows written to \<open>tmp/tmp.fas\<close> to the indices read
  back from \<open>tmp/tmp.id90.fas\<close>, or the exception of that read (no such file, or a header
  that is not an integer).
\<close>

record msa_env =
  uploaded_msa :: "string list \<times> nat list list"
  uploaded_pickle :: "string list list \<times> nat list list list"
  mmseqs2 :: "string list \<Rightarrow> (string list \<times> nat list list) list"
  mmseqs2_nofilter :: "string list \<Rightarrow> string list"
  jackhmmer :: "string \<Rightarrow> error + msa_bundle"

text \<open>Lines 228-229: one blank per chain.\<close>

definition blank_seq :: "'a job_scheme \<Rightarrow> string list" where
  "blank_seq I = map (\<lambda>L. replicate L (CHR ''-'')) (lengths I)"

definition blank_mtx :: "'a job_scheme \<Rightarrow> nat list list" where
  "blank_mtx I = map (\<lambda>L. replicate L 0) (lengths I)"

text \<open>Lines 230-237, \<open>_pad(ns, vals, mode)\<close>: the blanks with the given chains replaced,
  concatenated. An assignment \<open>_blank[n] = val\<close> past the end raises \<open>IndexError\<close>.\<close>

fun assign :: "'b list \<Rightarrow> (nat \<times> 'b) list \<Rightarrow> error + 'b list" where
  "assign b [] = Inr b"
| "assign b ((n, v) # nvs) =
     (if n < length b then assign (b[n := v]) nvs else Inl IndexError)"

definition pad :: "'b list list \<Rightarrow> (nat \<times> 'b list) list \<Rightarrow> error + 'b list" where
  "pad blank nvs = (case assign blank nvs of Inl e \<Rightarrow> Inl e | Inr b \<Rightarrow> Inr (concat b))"

text \<open>One padded row and its padded deletion row, from the assignments for both.\<close>

definition padded_row ::
  "'a job_scheme \<Rightarrow> (nat \<times> string) list \<times> (nat \<times> nat list) list \<Rightarrow> error + (string \<times> nat list)" where
  "padded_row I r =
     (case pad (blank_seq I) (fst r) of
        Inl e \<Rightarrow> Inl e
      | Inr s \<Rightarrow> (case pad (blank_mtx I) (snd r) of Inl e \<Rightarrow> Inl e | Inr m \<Rightarrow> Inr (s, m)))"

text \<open>Lines 265-268 and 332-335: a track starts with the query and a row of zeros, then
  one padded row per given row.\<close>

definition padded_track ::
  "'a job_scheme \<Rightarrow> ((nat \<times> string) list \<times> (nat \<times> nat list) list) list \<Rightarrow>
     error + (string list \<times> nat list list)" where
  "padded_track I rows =
     (case map_err (padded_row I) rows of
        Inl e \<Rightarrow> Inl e
      | Inr prs \<Rightarrow>
          Inr (sequence I # map fst prs, replicate (length (sequence I)) 0 # map snd prs))"

text \<open>\<open>I["msas"].append(msa); I["deletion_matrices"].append(mtx)\<close>.\<close>

definition append_track :: "'a job_scheme \<Rightarrow> string list \<times> nat list list \<Rightarrow> 'a job_scheme" where
  "append_track I t =
     I\<lparr> msas := msas I @ [fst t], deletion_matrices := deletion_matrices I @ [snd t] \<rparr>"

text \<open>Lines 195-213: the uploaded custom alignment is appended as it is; only the length
  of its first row is checked.\<close>

definition custom_step ::
  "msa_env \<Rightarrow> 'a job_scheme \<Rightarrow> bool \<Rightarrow> string \<Rightarrow> error + ('a job_scheme \<times> event list)" where
  "custom_step E I add_custom_msa msa_format =
     (if add_custom_msa then
        (let I1 = append_track I (uploaded_msa E);
             out = [Print (''upload custom msa in '' @ [CHR 0x27] @ msa_format @ [CHR 0x27] @
                           '' format''),
                    WriteFile (''tmp/upload.'' @ msa_format),
                    System (''reformat.pl '' @ msa_format @ '' a3m tmp/upload.'' @ msa_format @
                            '' tmp/upload.a3m''),
                    ReadFile ''tmp/upload.a3m'']
         in case index (msas I1) 0 of
              Inl e \<Rightarrow> Inl e
            | Inr t \<Rightarrow>
               (case index t 0 of
                  Inl e \<Rightarrow> Inl e
                | Inr row \<Rightarrow>
                   if length row \<noteq> length (sequence I1) then Inl ValueError
                   else Inr (I1, out)))
      else Inr (I, []))"

text \<open>Lines 252-261: the alignments \<open>zip(msas_, mtxs_)\<close> for chain \<open>n\<close>. \<open>A3M\<close> is the parsed
  answer of the search service for all chains. Any other method leaves \<open>msas_\<close> unbound.\<close>

definition unpaired_backend ::
  "msa_env \<Rightarrow> string \<Rightarrow> (string list \<times> nat list list) list \<Rightarrow> nat \<Rightarrow> string \<Rightarrow>
     error + ((string list \<times> nat list list) list \<times> event list)" where
  "unpaired_backend E msa_method A3M n seq =
     (if msa_method = ''mmseqs2'' then
        (case index A3M n of Inl e \<Rightarrow> Inl e | Inr t \<Rightarrow> Inr ([t], []))
      else if msa_method = ''jackhmmer'' then
        (case jackhmmer E seq of
           Inl e \<Rightarrow> Inl e
         | Inr b \<Rightarrow>
            Inr ([(concat (b_msas b), concat (b_deletion_matrices b))],
                 [Print (''running jackhmmer on seq_'' @ str_nat n)]))
      else Inl UnboundLocalError)"

text \<open>Lines 264-271: one padded track per alignment of chain \<open>n\<close>.\<close>

fun add_tracks ::
  "'a job_scheme \<Rightarrow> nat \<Rightarrow> (string list \<times> nat list list) list \<Rightarrow> error + 'a job_scheme" where
  "add_tracks I n [] = Inr I"
| "add_tracks I n ((msa', mtx') # ts) =
     (case padded_track I (map (\<lambda>(s, m). ([(n, s)], [(n, m)])) (zip msa' mtx')) of
        Inl e \<Rightarrow> Inl e
      | Inr t \<Rightarrow> add_tracks (append_track I t) n ts)"

text \<open>Lines 247-271: the loop over \<open>enumerate(I["seqs"])\<close>, from chain \<open>n\<close> on.\<close>

fun unpaired_loop ::
  "msa_env \<Rightarrow> string \<Rightarrow> (string list \<times> nat list list) list \<Rightarrow> nat \<Rightarrow> string list \<Rightarrow>
     'a job_scheme \<Rightarrow> error + ('a job_scheme \<times> event list)" where
  "unpaired_loop E msa_method A3M n [] I = Inr (I, [])"
| "unpaired_loop E msa_method A3M n (seq # rest) I =
     (case unpaired_backend E msa_method A3M n seq of
        Inl e \<Rightarrow> Inl e
      | Inr (ts, out) \<Rightarrow>
         (case add_tracks I n ts of
            Inl e \<Rightarrow> Inl e
          | Inr I' \<Rightarrow>
             (case unpaired_loop E msa_method A3M (Suc n) rest I' of
                Inl e \<Rightarrow> Inl e
              | Inr (I'', out') \<Rightarrow> Inr (I'', out @ out'))))"

text \<open>
  The pairing stage calls four functions as attributes of the name \<open>pairmsa\<close> (lines 293,
  299, 304 and 315). The module binds this name nowhere: lines 1-26 import \<open>os\<close>, \<open>jax\<close>,
  \<open>jnp\<close>, \<open>request\<close>, \<open>futures\<close>, \<open>pickle\<close>, \<open>jackhmmer\<close>, \<open>parsers\<close>, \<open>pipeline\<close>, \<open>protein\<close>,
  \<open>np\<close>, \<open>re\<close>, \<open>cf\<close>, \<open>files\<close> and \<open>tqdm\<close>, and no statement assigns to it. As with
  \<open>full_sequence\<close> in \<open>prep_inputs\<close>, looking the name up raises \<open>NameError\<close>, and it does so
  before any argument of the call is evaluated. Each of the four calls is therefore the
  exception. \<open>hashed\<close> is the type of the values that \<open>hash_it\<close> would return, \<open>stitched\<close>
  the four lists \<open>(*O[a][b]["seq"], *O[a][b]["mtx"])\<close> of a stitched pair.
\<close>

typedecl hashed

type_synonym stitched = "string list \<times> string list \<times> nat list list \<times> nat list list"

definition pairmsa_parse_a3m ::
  "string \<Rightarrow> int \<Rightarrow> int \<Rightarrow> error + (string list \<times> nat list list \<times> string list)" where
  "pairmsa_parse_a3m a3m_lines pair_qid pair_cov = Inl NameError"

definition pairmsa_get_uni_jackhmmer ::
  "msa_bundle \<Rightarrow> int \<Rightarrow> int \<Rightarrow> error + (string list \<times> nat list list \<times> string list)" where
  "pairmsa_get_uni_jackhmmer b pair_qid pair_cov = Inl NameError"

definition pairmsa_hash_it ::
  "string list \<Rightarrow> string list \<Rightarrow> nat list list \<Rightarrow> error + hashed" where
  "pairmsa_hash_it msa' lab' mtx' = Inl NameError"

definition pairmsa_stitch :: "hashed \<Rightarrow> hashed \<Rightarrow> error + stitched" where
  "pairmsa_stitch da db = Inl NameError"

text \<open>Lines 286-306: the entry of \<open>_data\<close> for chain \<open>a\<close>. \<open>A3M_LINES\<close> is the raw answer of
  the search service for all chains. Any other method leaves \<open>_msa\<close> unbound.\<close>

definition pair_hits ::
  "msa_env \<Rightarrow> string \<Rightarrow> string list \<Rightarrow> int \<Rightarrow> int \<Rightarrow> nat \<Rightarrow> string \<Rightarrow>
     error + hashed option" where
  "pair_hits E msa_method A3M_LINES pair_qid pair_cov a seq =
     (case (if msa_method = ''mmseqs2'' then
              (case index A3M_LINES a of
                 Inl e \<Rightarrow> Inl e
               | Inr a3m_lines \<Rightarrow> pairmsa_parse_a3m a3m_lines pair_qid pair_cov)
            else if msa_method = ''jackhmmer'' then
              (case jackhmmer E seq of
                 Inl e \<Rightarrow> Inl e
               | Inr b \<Rightarrow> pairmsa_get_uni_jackhmmer b pair_qid pair_cov)
            else Inl UnboundLocalError) of
        Inl e \<Rightarrow> Inl e
      | Inr (msa', mtx', lab') \<Rightarrow>
          (if length msa' > 1
           then (case pairmsa_hash_it msa' lab' mtx' of Inl e \<Rightarrow> Inl e | Inr d \<Rightarrow> Inr (Some d))
           else Inr None))"

fun pair_data ::
  "msa_env \<Rightarrow> string \<Rightarrow> string list \<Rightarrow> int \<Rightarrow> int \<Rightarrow> nat \<Rightarrow> string list \<Rightarrow>
     error + (nat \<times> hashed option) list" where
  "pair_data E msa_method A3M_LINES pair_qid pair_cov a [] = Inr []"
| "pair_data E msa_method A3M_LINES pair_qid pair_cov a (seq # rest) =
     (case pair_hits E msa_method A3M_LINES pair_qid pair_cov a seq of
        Inl e \<Rightarrow> Inl e
      | Inr d \<Rightarrow>
         (case pair_data E msa_method A3M_LINES pair_qid pair_cov (Suc a) rest of
            Inl e \<Rightarrow> Inl e
          | Inr ds \<Rightarrow> Inr ((a, d) # ds)))"

text \<open>Lines 331-335: the rows \<open>zip(_seq_a, _seq_b, _mtx_a, _mtx_b)\<close> of a stitched pair and
  the assignments \<open>_pad([a,b],[s_a,s_b],"seq")\<close>, \<open>_pad([a,b],[m_a,m_b],"mtx")\<close> for each.\<close>

definition stitched_rows :: "stitched \<Rightarrow> (string \<times> string \<times> nat list \<times> nat list) list" where
  "stitched_rows st =
     (case st of (seq_a, seq_b, mtx_a, mtx_b) \<Rightarrow> zip seq_a (zip seq_b (zip mtx_a mtx_b)))"

definition pair_rows ::
  "nat \<Rightarrow> nat \<Rightarrow> stitched \<Rightarrow> ((nat \<times> string) list \<times> (nat \<times> nat list) list) list" where
  "pair_rows a b st =
     map (\<lambda>(s_a, s_b, m_a, m_b). ([(a, s_a), (b, s_b)], [(a, m_a), (b, m_b)])) (stitched_rows st)"

text \<open>Lines 316-337, what follows the call of \<open>_stitch\<close> for one pair \<open>a < b\<close>: the
  redundancy filter, whose indices \<open>ok\<close> are only counted in the message, and the track of
  all stitched rows. An exception of the filter's read ends the call.\<close>

definition stitched_block ::
  "(string list \<Rightarrow> error + int list) \<Rightarrow> bool \<Rightarrow> nat \<Rightarrow> nat \<Rightarrow> stitched \<Rightarrow> 'a job_scheme \<Rightarrow>
     error + ('a job_scheme \<times> event list)" where
  "stitched_block hhfilter verbose a b st I =
     (case st of
        (seq_a, seq_b, mtx_a, mtx_b) \<Rightarrow>
          (case hhfilter (map (\<lambda>(x, y). x @ y) (zip seq_a seq_b)) of
             Inl e \<Rightarrow> Inl e
           | Inr ok \<Rightarrow>
              (let out = [WriteFile ''tmp/tmp.fas'',
                          System ''hhfilter -maxseq 1000000 -i tmp/tmp.fas -o tmp/tmp.id90.fas -id 90'',
                          ReadFile ''tmp/tmp.id90.fas''] @
                         (if verbose
                          then [Print (''found '' @ str_nat (length seq_a) @ '' pairs ('' @
                                       str_nat (length ok) @ '' after filtering)'')]
                          else [])
               in if length seq_a > 0 then
                    (case padded_track I (pair_rows a b st) of
                       Inl e \<Rightarrow> Inl e
                     | Inr t \<Rightarrow> Inr (append_track I t, out))
                  else Inr (I, out))))"

text \<open>Lines 314-337 for one pair: the call of \<open>_stitch\<close>, then the block above.\<close>

definition stitch_pair ::
  "(string list \<Rightarrow> error + int list) \<Rightarrow> bool \<Rightarrow> nat \<Rightarrow> hashed \<Rightarrow> nat \<Rightarrow> hashed \<Rightarrow> 'a job_scheme \<Rightarrow>
     error + ('a job_scheme \<times> event list)" where
  "stitch_pair hhfilter verbose a da b db I =
     (case pairmsa_stitch da db of
        Inl e \<Rightarrow> Inl e
      | Inr st \<Rightarrow>
         (case stitched_block hhfilter verbose a b st I of
            Inl e \<Rightarrow> Inl e
          | Inr (I', out) \<Rightarrow>
              Inr (I', Print (''attempting pairwise stitch for '' @ str_nat a @ '' '' @ str_nat b)
                       # out)))"

text \<open>Lines 310-337: the loops over \<open>a\<close> and over \<open>b > a\<close>, on \<open>enumerate(_data)\<close>.\<close>

fun stitch_b ::
  "(string list \<Rightarrow> error + int list) \<Rightarrow> bool \<Rightarrow> nat \<Rightarrow> hashed \<Rightarrow> (nat \<times> hashed option) list \<Rightarrow>
     'a job_scheme \<Rightarrow> error + ('a job_scheme \<times> event list)" where
  "stitch_b hhfilter verbose a da [] I = Inr (I, [])"
| "stitch_b hhfilter verbose a da ((b, None) # rest) I =
     stitch_b hhfilter verbose a da rest I"
| "stitch_b hhfilter verbose a da ((b, Some db) # rest) I =
     (case stitch_pair hhfilter verbose a da b db I of
        Inl e \<Rightarrow> Inl e
      | Inr (I', out) \<Rightarrow>
         (case stitch_b hhfilter verbose a da rest I' of
            Inl e \<Rightarrow> Inl e
          | Inr (I'', out') \<Rightarrow> Inr (I'', out @ out')))"

fun stitch_a ::
  "(string list \<Rightarrow> error + int list) \<Rightarrow> bool \<Rightarrow> (nat \<times> hashed option) list \<Rightarrow>
     'a job_scheme \<Rightarrow> error + ('a job_scheme \<times> event list)" where
  "stitch_a hhfilter verbose [] I = Inr (I, [])"
| "stitch_a hhfilter verbose ((a, None) # rest) I = stitch_a hhfilter verbose rest I"
| "stitch_a hhfilter verbose ((a, Some da) # rest) I =
     (case stitch_b hhfilter verbose a da rest I of
        Inl e \<Rightarrow> Inl e
      | Inr (I', out) \<Rightarrow>
         (case stitch_a hhfilter verbose rest I' of
            Inl e \<Rightarrow> Inl e
          | Inr (I'', out') \<Rightarrow> Inr (I'', out @ out')))"

text \<open>Lines 276-337: the pairing stage.\<close>

definition paired_stage ::
  "msa_env \<Rightarrow> (string list \<Rightarrow> error + int list) \<Rightarrow> string \<Rightarrow> int \<Rightarrow> int \<Rightarrow> bool \<Rightarrow>
     'a job_scheme \<Rightarrow> error + ('a job_scheme \<times> event list)" where
  "paired_stage E hhfilter msa_method pair_cov pair_qid verbose I =
     (let A3M_LINES = (if msa_method = ''mmseqs2'' then mmseqs2_nofilter E (seqs I) else []);
          out = [Print ''attempting to pair some sequences...''] @
                (if msa_method = ''mmseqs2''
                 then [Print ''running mmseqs2_noenv_nofilter on all seqs''] else [])
      in case pair_data E msa_method A3M_LINES pair_qid pair_cov 0 (seqs I) of
           Inl e \<Rightarrow> Inl e
         | Inr ds \<Rightarrow>
            (case stitch_a hhfilter verbose ds I of
               Inl e \<Rightarrow> Inl e
             | Inr (I', out') \<Rightarrow>
                 Inr (I', out @
                          map (\<lambda>a. Print (''prepping seq_'' @ str_nat a)) [0..<length (seqs I)] @
                          out')))"

text \<open>Lines 239-271: the unpaired stage.\<close>

definition unpaired_stage ::
  "msa_env \<Rightarrow> string \<Rightarrow> 'a job_scheme \<Rightarrow> error + ('a job_scheme \<times> event list)" where
  "unpaired_stage E msa_method I =
     (let A3M = (if msa_method = ''mmseqs2'' then mmseqs2 E (seqs I) else []);
          out = (if msa_method = ''mmseqs2'' then [Print ''running mmseqs2''] else [])
      in case unpaired_loop E msa_method A3M 0 (seqs I) I of
           Inl e \<Rightarrow> Inl e
         | Inr (I', out') \<Rightarrow> Inr (I', out @ out'))"

text \<open>
  \<open>prep_msa(I, msa_method, add_custom_msa, msa_format, pair_mode, pair_cov, pair_qid,
  verbose)\<close>: the job afterwards and the effects. \<open>"unpaired" in pair_mode\<close> is the substring
  test.
\<close>

definition prep_msa ::
  "msa_env \<Rightarrow> (string list \<Rightarrow> error + int list) \<Rightarrow> 'a job_scheme \<Rightarrow> string \<Rightarrow> bool \<Rightarrow> string \<Rightarrow>
     string \<Rightarrow> int \<Rightarrow> int \<Rightarrow> bool \<Rightarrow> error + ('a job_scheme \<times> event list)" where
  "prep_msa E hhfilter I msa_method add_custom_msa msa_format pair_mode pair_cov pair_qid verbose =
     (let I0 = I\<lparr> msas := [], deletion_matrices := [] \<rparr>
      in case custom_step E I0 add_custom_msa msa_format of
           Inl e \<Rightarrow> Inl e
         | Inr (I1, out1) \<Rightarrow>
            (case (if msa_method = ''precomputed'' then
                     Inr (I1\<lparr> msas := fst (uploaded_pickle E),
                              deletion_matrices := snd (uploaded_pickle E) \<rparr>,
                          [Print ''upload precomputed pickled msa from previous run''])
                   else if msa_method = ''single_sequence'' then
                     Inr (if length (msas I1) = 0
                          then append_track I1
                                 ([sequence I1], [replicate (length (sequence I1)) 0])
                          else I1, [])
                   else
                     (case (if length (seqs I1) = 1 \<or> sublist ''unpaired'' pair_mode
                            then unpaired_stage E msa_method I1 else Inr (I1, [])) of
                        Inl e \<Rightarrow> Inl e
                      | Inr (I2, out2) \<Rightarrow>
                         (case (if length (seqs I2) > 1 \<and>
                                   (pair_mode = ''paired'' \<or> pair_mode = ''unpaired+paired'')
                                then paired_stage E hhfilter msa_method pair_cov pair_qid verbose I2
                                else Inr (I2, [])) of
                            Inl e \<Rightarrow> Inl e
                          | Inr (I3, out3) \<Rightarrow> Inr (I3, out2 @ out3)))) of
               Inl e \<Rightarrow> Inl e
             | Inr (I4, out4) \<Rightarrow>
                 Inr (I4, out1 @ out4 @ [WriteFile (output_dir I4 @ ''/msa.pickle'')])))"

text \<open>An environment and two redundancy filters used to evaluate \<open>prep_msa\<close>: every chain
  has the alignment of the chain with itself; one filter keeps the first row only, the
  other keeps every row.\<close>

definition sample_env :: msa_env where
  "sample_env =
     \<lparr> uploaded_msa = ([''ACGT''], [[0, 0, 0, 0]]),
       uploaded_pickle = ([[''ACGT'']], [[[0, 0, 0, 0]]]),
       mmseqs2 = (\<lambda>ss. map (\<lambda>s. ([s, s], [replicate (length s) 0, replicate (length s) 1])) ss),
       mmseqs2_nofilter = (\<lambda>ss. map (\<lambda>s. ''>query'' @ [newline] @ s @ [newline]) ss),
       jackhmmer =
         (\<lambda>s. Inr \<lparr> b_msas = [[s, s]],
                     b_deletion_matrices = [[replicate (length s) 0, replicate (length s) 1]],
                     b_names = [[''query'', ''t'']] \<rparr>) \<rparr>"

definition keep_first :: "string list \<Rightarrow> error + int list" where
  "keep_first rows = Inr [0]"

definition keep_all :: "string list \<Rightarrow> error + int list" where
  "keep_all rows = Inr (map int [0..<length rows])"

section \<open>Auxiliary predicates\<close>

text \<open>No two adjacent characters of the class; the shape of a normalized sequence.\<close>

fun no_rep :: "(char \<Rightarrow> bool) \<Rightarrow> string \<Rightarrow> bool" where
  "no_rep P [] = True"
| "no_rep P [x] = True"
| "no_rep P (x # y # zs) = (\<not> (P x \<and> P y) \<and> no_rep P (y # zs))"

definition canonical :: "string \<Rightarrow> bool" where
  "canonical t =
     (list_all is_seq_char t \<and> no_rep is_colon t \<and> no_rep is_slash t \<and>
      (t \<noteq> [] \<longrightarrow> \<not> is_sep (hd t) \<and> \<not> is_sep (last t)))"






section \<open>Verification\<close>

subsection \<open>Sequence normalization\<close>

lemma upper_char_seq_char: "is_seq_char c \<Longrightarrow> upper_char c = c"
  by (auto simp: is_seq_char_def is_upper_def is_sep_def is_colon_def is_slash_def upper_char_def)

lemma sub_outside_upper_id:
  "list_all is_seq_char t \<Longrightarrow> sub_outside is_seq_char (upper t) = t"
  by (induction t) (auto simp: sub_outside_def upper_def upper_char_seq_char)

lemma no_rep_Cons:
  "no_rep P (x # t) = ((t \<noteq> [] \<longrightarrow> \<not> (P x \<and> P (hd t))) \<and> no_rep P t)"
  by (cases t) auto

lemma no_rep_append:
  "no_rep P (xs @ ys) \<Longrightarrow> no_rep P xs \<and> no_rep P ys"
  by (induction P xs rule: no_rep.induct) (auto simp: no_rep_Cons)

lemma no_rep_dropWhile: "no_rep P s \<Longrightarrow> no_rep P (dropWhile Q s)"
  by (metis no_rep_append takeWhile_dropWhile_id)

lemma strip_end_prefix: "strip_end P s @ rev (takeWhile P (rev s)) = s"
  unfolding strip_end_def by (metis rev_append rev_rev_ident takeWhile_dropWhile_id)

lemma no_rep_strip_end: "no_rep P s \<Longrightarrow> no_rep P (strip_end Q s)"
  by (metis no_rep_append strip_end_prefix)

lemma sub_runs_hd:
  "s = [] \<or> \<not> P (hd s) \<Longrightarrow> sub_runs P r s = [] \<or> \<not> P (hd (sub_runs P r s))"
  by (cases s) auto

lemma dropWhile_hd: "dropWhile P s = [] \<or> \<not> P (hd (dropWhile P s))"
  by (metis hd_dropWhile)

lemma no_rep_sub_runs: "no_rep P (sub_runs P r s)"
proof (induction P r s rule: sub_runs.induct)
  case (1 P r)
  then show ?case by simp
next
  case (2 P r x xs)
  show ?case
  proof (cases "P x")
    case True
    have "sub_runs P r (dropWhile P xs) = [] \<or> \<not> P (hd (sub_runs P r (dropWhile P xs)))"
      by (rule sub_runs_hd) (rule dropWhile_hd)
    with True 2 show ?thesis by (auto simp: no_rep_Cons)
  next
    case False
    with 2 show ?thesis by (auto simp: no_rep_Cons)
  qed
qed

lemma sub_runs_hd_other:
  "sub_runs P r s \<noteq> [] \<Longrightarrow> Q (hd (sub_runs P r s)) \<Longrightarrow> \<not> Q r \<Longrightarrow> s \<noteq> [] \<and> Q (hd s)"
  by (cases s) (auto split: if_splits)

lemma no_rep_sub_runs_other:
  "no_rep Q s \<Longrightarrow> \<not> Q r \<Longrightarrow> no_rep Q (sub_runs P r s)"
proof (induction P r s rule: sub_runs.induct)
  case (1 P r)
  then show ?case by simp
next
  case (2 P r x xs)
  show ?case
  proof (cases "P x")
    case True
    from 2 have "no_rep Q xs" by (simp add: no_rep_Cons)
    then have "no_rep Q (dropWhile P xs)" by (rule no_rep_dropWhile)
    with True 2 show ?thesis by (simp add: no_rep_Cons)
  next
    case False
    from 2 have nr: "no_rep Q xs" by (simp add: no_rep_Cons)
    have "sub_runs P r xs \<noteq> [] \<Longrightarrow> Q (hd (sub_runs P r xs)) \<Longrightarrow> xs \<noteq> [] \<and> Q (hd xs)"
      using sub_runs_hd_other 2(4) by blast
    with False 2 nr show ?thesis by (auto simp: no_rep_Cons)
  qed
qed

lemma sub_runs_id:
  "no_rep P s \<Longrightarrow> (\<forall>x. P x \<longrightarrow> x = r) \<Longrightarrow> sub_runs P r s = s"
proof (induction P r s rule: sub_runs.induct)
  case (1 P r)
  then show ?case by simp
next
  case (2 P r x xs)
  show ?case
  proof (cases "P x")
    case True
    with 2(3) have "xs = [] \<or> \<not> P (hd xs)" by (auto simp: no_rep_Cons)
    then have dw: "dropWhile P xs = xs" by (cases xs) auto
    from 2(3) have "no_rep P xs" by (simp add: no_rep_Cons)
    with True 2 dw show ?thesis by simp
  next
    case False
    from 2(3) have "no_rep P xs" by (simp add: no_rep_Cons)
    with False 2 show ?thesis by simp
  qed
qed

lemma list_all_sub_runs:
  "list_all Q s \<Longrightarrow> Q r \<Longrightarrow> list_all Q (sub_runs P r s)"
proof (induction P r s rule: sub_runs.induct)
  case (1 P r)
  then show ?case by simp
next
  case (2 P r x xs)
  then have "list_all Q (dropWhile P xs)"
    by (metis list.pred_inject(2) list_all_append takeWhile_dropWhile_id)
  with 2 show ?case by auto
qed

lemma list_all_dropWhile: "list_all Q s \<Longrightarrow> list_all Q (dropWhile P s)"
  by (metis list_all_append takeWhile_dropWhile_id)

lemma list_all_strip_end: "list_all Q s \<Longrightarrow> list_all Q (strip_end P s)"
  by (metis list_all_append strip_end_prefix)

lemma strip_end_last: "strip_end P s = [] \<or> \<not> P (last (strip_end P s))"
  unfolding strip_end_def by (metis dropWhile_hd last_rev rev_is_Nil_conv)

lemma strip_end_hd: "strip_end P s \<noteq> [] \<Longrightarrow> hd (strip_end P s) = hd s"
  by (metis hd_append2 strip_end_prefix)

lemma strip_end_id: "s = [] \<or> \<not> P (last s) \<Longrightarrow> strip_end P s = s"
  unfolding strip_end_def by (cases "rev s") (auto simp: last_rev)

lemma seq_char_not_newline: "list_all is_seq_char s \<Longrightarrow> s = [] \<or> last s \<noteq> newline"
proof (cases "s = []")
  case False
  assume "list_all is_seq_char s"
  with False have "is_seq_char (last s)" by (simp add: list_all_iff)
  then have "last s \<noteq> newline"
    by (auto simp: is_seq_char_def is_upper_def is_sep_def is_colon_def is_slash_def newline_def)
  then show ?thesis by simp
qed simp

lemma sub_trailing_seq: "list_all is_seq_char s \<Longrightarrow> sub_trailing P s = strip_end P s"
  using seq_char_not_newline[of s] by (auto simp: sub_trailing_def)

lemma canonical_normalize: "canonical (normalize_sequence s)"
proof -
  define a where "a = sub_outside is_seq_char (upper s)"
  define b where "b = sub_runs is_colon (CHR '':'') a"
  define c where "c = sub_runs is_slash (CHR ''/'') b"
  define d where "d = sub_leading is_sep c"
  have a: "list_all is_seq_char a" by (simp add: a_def sub_outside_def list_all_iff)
  have b: "list_all is_seq_char b" unfolding b_def
    by (rule list_all_sub_runs[OF a]) (simp add: is_seq_char_def is_sep_def is_colon_def)
  have c: "list_all is_seq_char c" unfolding c_def
    by (rule list_all_sub_runs[OF b]) (simp add: is_seq_char_def is_sep_def is_slash_def)
  have d: "list_all is_seq_char d" unfolding d_def sub_leading_def
    by (rule list_all_dropWhile[OF c])
  have nb: "no_rep is_colon b" unfolding b_def by (rule no_rep_sub_runs)
  have nc1: "no_rep is_colon c" unfolding c_def
    by (rule no_rep_sub_runs_other[OF nb]) (simp add: is_colon_def)
  have nc2: "no_rep is_slash c" unfolding c_def by (rule no_rep_sub_runs)
  have nd1: "no_rep is_colon d" unfolding d_def sub_leading_def by (rule no_rep_dropWhile[OF nc1])
  have nd2: "no_rep is_slash d" unfolding d_def sub_leading_def by (rule no_rep_dropWhile[OF nc2])
  have hd: "d = [] \<or> \<not> is_sep (hd d)" unfolding d_def sub_leading_def by (rule dropWhile_hd)
  have n: "normalize_sequence s = strip_end is_sep d"
    using sub_trailing_seq[OF d] by (simp add: normalize_sequence_def a_def b_def c_def d_def)
  have "list_all is_seq_char (strip_end is_sep d)" by (rule list_all_strip_end[OF d])
  moreover have "no_rep is_colon (strip_end is_sep d)" by (rule no_rep_strip_end[OF nd1])
  moreover have "no_rep is_slash (strip_end is_sep d)" by (rule no_rep_strip_end[OF nd2])
  moreover have "strip_end is_sep d \<noteq> [] \<longrightarrow> \<not> is_sep (hd (strip_end is_sep d))"
    using hd strip_end_hd[of is_sep d] by (cases "d = []") (auto simp: strip_end_def)
  moreover have "strip_end is_sep d \<noteq> [] \<longrightarrow> \<not> is_sep (last (strip_end is_sep d))"
    using strip_end_last[of is_sep d] by auto
  ultimately show ?thesis unfolding n canonical_def by blast
qed

lemma normalize_canonical: "canonical t \<Longrightarrow> normalize_sequence t = t"
proof -
  assume c: "canonical t"
  then have la: "list_all is_seq_char t" and n1: "no_rep is_colon t" and n2: "no_rep is_slash t"
    and e: "t \<noteq> [] \<longrightarrow> \<not> is_sep (hd t) \<and> \<not> is_sep (last t)"
    by (simp_all add: canonical_def)
  have 1: "sub_outside is_seq_char (upper t) = t" by (rule sub_outside_upper_id[OF la])
  have 2: "sub_runs is_colon (CHR '':'') t = t"
    by (rule sub_runs_id[OF n1]) (simp add: is_colon_def)
  have 3: "sub_runs is_slash (CHR ''/'') t = t"
    by (rule sub_runs_id[OF n2]) (simp add: is_slash_def)
  have 4: "sub_leading is_sep t = t" using e by (cases t) (auto simp: sub_leading_def)
  have 5: "sub_trailing is_sep t = t"
    using sub_trailing_seq[OF la] strip_end_id[of t is_sep] e by auto
  show ?thesis by (simp add: normalize_sequence_def 1 2 3 4 5)
qed

text \<open>
  Claim C9. The sequence normalization of \<open>prep_inputs\<close> (lines 132-136: delete every
  character outside \<open>[A-Z:/]\<close> after upper-casing, collapse runs of \<open>:\<close> and of \<open>/\<close>,
  delete leading and trailing separators) is idempotent: normalizing a normalized sequence
  changes nothing.
\<close>

theorem normalize_sequence_idempotent:
  "normalize_sequence (normalize_sequence s) = normalize_sequence s"
  by (rule normalize_canonical) (rule canonical_normalize)

theorem normalize_sequence_idempotent_witness:
  "normalize_sequence ''AB:C/D:/:E'' = ''AB:C/D:/:E''"
proof -
  have "normalize_sequence ''ab::c//d:/:e:'' = ''AB:C/D:/:E''"
    by code_simp
  then show ?thesis
    using normalize_sequence_idempotent [of "''ab::c//d:/:e:''"] by simp
qed

subsection \<open>The oligomer list of \<open>prep_inputs\<close>\<close>

lemma append_ones_eq: "append_ones n hs = hs @ replicate (n - length hs) 1"
proof (induction n hs rule: append_ones.induct)
  case (1 n hs)
  show ?case
  proof (cases "n > length hs")
    case True
    then have "n - length hs = Suc (n - length (hs @ [1]))" by simp
    moreover have "append_ones n hs = append_ones n (hs @ [1])"
      using True by (subst append_ones.simps) simp
    ultimately show ?thesis using True 1 by simp
  next
    case False
    then show ?thesis by (subst append_ones.simps) simp
  qed
qed

lemma adjust_homooligomer_length:
  "adjust_homooligomer verbose ss h hs = (hs', h', out) \<Longrightarrow> length hs' = length ss"
  by (auto simp: adjust_homooligomer_def append_ones_eq Let_def split: if_splits)

lemma adjust_homooligomer_value:
  "adjust_homooligomer verbose ss h hs = (hs', h', out) \<Longrightarrow>
     hs' = (if length hs = length ss then hs
            else if length hs = 1 then replicate (length ss) (hd hs)
            else take (length ss) (hs @ replicate (length ss - length hs) 1))"
  by (cases hs) (auto simp: adjust_homooligomer_def append_ones_eq Let_def split: if_splits)

lemma adjust_homooligomer_warning:
  "adjust_homooligomer verbose ss h hs = (hs', h', out) \<Longrightarrow>
     verbose \<Longrightarrow> length hs \<noteq> length ss \<Longrightarrow> length hs \<noteq> 1 \<Longrightarrow> out = [Print mismatch_warning]"
  by (auto simp: adjust_homooligomer_def Let_def split: if_splits)

lemma map_err_Inl:
  "map_err f xs = Inl e \<Longrightarrow> \<exists>x \<in> set xs. f x = Inl e"
  by (induction xs) (auto split: sum.splits)

lemma split_on_fields:
  "f \<in> set (split_on c s) \<Longrightarrow> set f \<subseteq> set s - {c}"
proof (induction s arbitrary: f)
  case Nil
  then show ?case by simp
next
  case (Cons x xs)
  show ?case
  proof (cases "x = c")
    case True
    with Cons show ?thesis by fastforce
  next
    case False
    show ?thesis
    proof (cases "split_on c xs")
      case Nil
      with Cons False show ?thesis by auto
    next
      case (Cons y ys)
      with Cons.prems False have "f = x # y \<or> f \<in> set ys" by simp
      moreover have "set y \<subseteq> set xs - {c}" using Cons.IH[of y] Cons by simp
      moreover have "f \<in> set ys \<Longrightarrow> set f \<subseteq> set xs - {c}" using Cons.IH[of f] Cons by simp
      ultimately show ?thesis using False by auto
    qed
  qed
qed

lemma homo_fields_digits:
  assumes "f \<in> set (split_on (CHR '':'') (normalize_homooligomer h))"
  shows "list_all is_digit f"
proof -
  have "set (normalize_homooligomer h) \<subseteq> {c. is_homo_char c}"
    by (auto simp: normalize_homooligomer_def sub_outside_def Let_def)
  with split_on_fields[OF assms] have "set f \<subseteq> {c. is_homo_char c} - {CHR '':''}" by blast
  then show ?thesis by (auto simp: list_all_iff is_homo_char_def is_colon_def)
qed

lemma homo_parse_error:
  assumes "map_err py_int (split_on (CHR '':'') (normalize_homooligomer h)) = Inl e"
  shows "e = ValueError \<and> [] \<in> set (split_on (CHR '':'') (normalize_homooligomer h))"
proof -
  from map_err_Inl[OF assms] obtain f
    where f: "f \<in> set (split_on (CHR '':'') (normalize_homooligomer h))" and pf: "py_int f = Inl e"
    by blast
  from homo_fields_digits[OF f] pf have "e = ValueError \<and> f = []"
    by (auto simp: py_int_def split: if_splits)
  with f show ?thesis by simp
qed

text \<open>
  Claim C1. Whenever \<open>prep_inputs\<close> returns, the chain list and the multiplicity list of
  the job have the same length: with \<open>hs\<close> the multiplicities parsed from the normalized
  oligomer string, the list is \<open>hs\<close> itself when the counts agree, the single value
  repeated for every chain when exactly one was given, and otherwise \<open>hs\<close> padded with 1
  or cut to the chain count, with the mismatch warning printed in verbose mode. A mismatch
  never makes the call fail: the only exceptions are the \<open>ValueError\<close> of \<open>int("")\<close> for an
  empty field of the oligomer string and the \<open>NameError\<close> of the verbose length message.
\<close>

theorem prep_inputs_lengths_agree:
  "case prep_inputs get_hash listdir sequence0 jobname0 homooligomer0 clean verbose of
     Inr (I, out) \<Rightarrow>
       length (seqs I) = length (homooligomers I) \<and>
       (\<exists>hs. map_err py_int (split_on (CHR '':'') (normalize_homooligomer homooligomer0)) = Inr hs \<and>
          homooligomers I =
            (if length hs = length (seqs I) then hs
             else if length hs = 1 then replicate (length (seqs I)) (hd hs)
             else take (length (seqs I)) (hs @ replicate (length (seqs I) - length hs) 1)) \<and>
          (verbose \<and> length hs \<noteq> length (seqs I) \<and> length hs \<noteq> 1
             \<longrightarrow> Print mismatch_warning \<in> set out))
   | Inl e \<Rightarrow>
       (e = ValueError \<and> [] \<in> set (split_on (CHR '':'') (normalize_homooligomer homooligomer0)))
       \<or> (e = NameError \<and> verbose)"
proof (cases "map_err py_int (split_on (CHR '':'') (normalize_homooligomer homooligomer0))")
  case (Inl e)
  with homo_parse_error[OF Inl] show ?thesis
    by (simp add: prep_inputs_def Let_def)
next
  case (Inr hs)
  define ss where "ss = split_on (CHR '':'') (remove_char (CHR ''/'') (normalize_sequence sequence0))"
  obtain hs' h' out1 where adj:
    "adjust_homooligomer verbose ss (normalize_homooligomer homooligomer0) hs = (hs', h', out1)"
    by (cases "adjust_homooligomer verbose ss (normalize_homooligomer homooligomer0) hs") auto
  note len = adjust_homooligomer_length[OF adj]
  note val = adjust_homooligomer_value[OF adj]
  note warn = adjust_homooligomer_warning[OF adj]
  show ?thesis
  proof (cases "verbose \<and> length (expand_sequence ss hs') > 1400")
    case True
    with Inr adj show ?thesis
      by (simp add: prep_inputs_def Let_def ss_def)
  next
    case False
    with Inr adj len val warn show ?thesis
      by (auto simp add: prep_inputs_def Let_def ss_def)
  qed
qed

theorem prep_inputs_lengths_agree_witness:
  "case prep_inputs (\<lambda>s. s) (\<lambda>d. []) ''ab:cd:ef'' ''job 1'' ''2:3'' True True of
     Inr (I, out) \<Rightarrow> seqs I = [''AB'', ''CD'', ''EF''] \<and> homooligomers I = [2, 3, 1]
        \<and> length (seqs I) = length (homooligomers I) \<and> Print mismatch_warning \<in> set out
   | Inl e \<Rightarrow> False"
proof -
  have ev: "case prep_inputs (\<lambda>s. s) (\<lambda>d. []) ''ab:cd:ef'' ''job 1'' ''2:3'' True True of
     Inr (I, out) \<Rightarrow> seqs I = [''AB'', ''CD'', ''EF''] \<and> homooligomers I = [2, 3, 1]
        \<and> Print mismatch_warning \<in> set out
   | Inl e \<Rightarrow> False"
    by code_simp
  show ?thesis
    using ev prep_inputs_lengths_agree [where get_hash = "\<lambda>s. s" and listdir = "\<lambda>d. []"
        and ?sequence0.0 = "''ab:cd:ef''" and ?jobname0.0 = "''job 1''" and ?homooligomer0.0 = "''2:3''"
        and clean = True and verbose = True]
    by (auto split: sum.splits)
qed

subsection \<open>The length message of \<open>prep_inputs\<close>\<close>

lemma no_rep_none: "\<forall>x \<in> set s. \<not> P x \<Longrightarrow> no_rep P s"
  by (induction P s rule: no_rep.induct) auto

lemma canonical_residues:
  assumes "\<forall>x \<in> set s. is_upper x"
  shows "canonical s"
proof -
  have ns: "\<forall>x \<in> set s. \<not> is_sep x"
    using assms by (auto simp: is_upper_def is_sep_def is_colon_def is_slash_def)
  then have "\<forall>x \<in> set s. \<not> is_colon x" and "\<forall>x \<in> set s. \<not> is_slash x"
    by (auto simp: is_sep_def)
  then have "no_rep is_colon s" and "no_rep is_slash s"
    by (auto intro: no_rep_none)
  moreover have "list_all is_seq_char s"
    using assms by (auto simp: list_all_iff is_seq_char_def)
  moreover have "s \<noteq> [] \<longrightarrow> \<not> is_sep (hd s) \<and> \<not> is_sep (last s)"
    using ns by auto
  ultimately show ?thesis by (simp add: canonical_def)
qed

lemma split_on_absent: "c \<notin> set s \<Longrightarrow> split_on c s = [s]"
  by (induction s) auto

lemma single_chain_fields:
  assumes "\<forall>x \<in> set s. is_upper x"
  shows "split_on (CHR '':'') (remove_char (CHR ''/'') s) = [s]"
    and "remove_char (CHR '':'') (remove_char (CHR ''/'') s) = s"
proof -
  have "CHR ''/'' \<notin> set s" and c: "CHR '':'' \<notin> set s"
    using assms by (auto simp: is_upper_def)
  then have r: "remove_char (CHR ''/'') s = s" and r2: "remove_char (CHR '':'') s = s"
    by (auto simp: remove_char_def filter_id_conv)
  show "split_on (CHR '':'') (remove_char (CHR ''/'') s) = [s]"
    using c by (simp add: r split_on_absent)
  show "remove_char (CHR '':'') (remove_char (CHR ''/'') s) = s"
    by (simp add: r r2)
qed

lemma py_int_one:
  "py_int ''1'' = Inr (Suc 0)"
  by code_simp

lemma normalize_py_int_one: "normalize_homooligomer ''1'' = ''1''"
  by code_simp

text \<open>
  Claim C7. The claim says an oversized total length only prints a warning and the call
  continues, also in verbose mode. Evaluated at a single chain of 1401 residues: with
  \<open>verbose\<close> set the call ends in \<open>NameError\<close> (the message formats the unbound name
  \<open>full_sequence\<close>); without it the call returns the job and prints nothing.
\<close>

theorem prep_inputs_oversized:
  "prep_inputs get_hash listdir (replicate 1401 (CHR ''A'')) jobname ''1'' clean True = Inl NameError
   \<and> (case prep_inputs get_hash listdir (replicate 1401 (CHR ''A'')) jobname ''1'' clean False of
        Inr (I, out) \<Rightarrow> length (full_sequence I) = 1401 \<and> (\<forall>m. Print m \<notin> set out)
      | Inl e \<Rightarrow> False)"
proof -
  define s where "s = replicate 1401 (CHR ''A'')"
  have up: "\<forall>x \<in> set s. is_upper x" by (simp add: s_def is_upper_def)
  have n: "normalize_sequence s = s" by (rule normalize_canonical[OF canonical_residues[OF up]])
  note f = single_chain_fields[OF up]
  have adj: "adjust_homooligomer v [s] ''1'' [k] = ([k], ''1'', [])" for v k
    by (simp add: adjust_homooligomer_def)
  have ex: "expand_sequence [s] [Suc 0] = s" by (simp add: expand_sequence_def)
  have len: "length s = 1401" by (simp add: s_def)
  show ?thesis
    unfolding s_def[symmetric]
    by (auto simp add: prep_inputs_def Let_def n f py_int_one normalize_py_int_one adj ex len)
qed

subsection \<open>Hits of one database in \<open>run_jackhmmer\<close>\<close>

lemma sorted_take_drop_le:
  assumes "sorted (map f xs)"
  shows "\<forall>k \<in> set (take n xs). \<forall>d \<in> set (drop n xs). f k \<le> f d"
proof -
  have "sorted (map f (take n xs) @ map f (drop n xs))"
    using assms by (simp flip: map_append)
  then show ?thesis by (auto simp: sorted_append)
qed

lemma map_err_map:
  "\<forall>x \<in> set xs. f x = Inr (g x) \<Longrightarrow> map_err f xs = Inr (map g xs)"
  by (induction xs) auto

lemma synthetic_zip:
  "zip (map (hit_msa \<circ> synthetic_hit) ys)
     (zip (map (hit_deletion \<circ> synthetic_hit) ys)
        (zip (map (hit_name \<circ> synthetic_hit) ys)
           (map length (map (hit_name \<circ> synthetic_hit) ys)))) =
   map synthetic_hit ys"
  by (induction ys)
     (simp_all add: hit_msa_def hit_deletion_def hit_name_def synthetic_hit_def)

lemma synthetic_unsorted:
  "unsorted_results 0 [synthetic_chunk n] = Inr (map synthetic_hit (rev [0..<n]))"
proof -
  have nm: "hd (split_on (CHR ''/'') (replicate i (CHR ''t''))) = replicate i (CHR ''t'')" for i
    by (simp add: split_on_absent)
  have e: "map_err (\<lambda>t. case tbl_e_values (synthetic_chunk n) (hd (split_on (CHR ''/'') t)) of
                            None \<Rightarrow> Inl KeyError
                          | Some e \<Rightarrow> Inr e) (sto_names (synthetic_chunk n)) =
           Inr (map length (sto_names (synthetic_chunk n)))"
    by (rule map_err_map) (auto simp: synthetic_chunk_def hit_name_def synthetic_hit_def nm)
  have z: "zip (sto_msa (synthetic_chunk n))
             (zip (sto_deletion_matrix (synthetic_chunk n))
                (zip (sto_names (synthetic_chunk n)) (map length (sto_names (synthetic_chunk n))))) =
           map synthetic_hit (rev [0..<n])"
    unfolding synthetic_chunk_def chunk.simps by (rule synthetic_zip)
  show ?thesis
    by (simp add: chunk_hits_def e z)
qed

lemma synthetic_sorted:
  "sort_key hit_e_value (map synthetic_hit (rev [0..<n])) = map synthetic_hit [0..<n]"
proof -
  define xs where "xs = sort_key hit_e_value (map synthetic_hit (rev [0..<n]))"
  have k: "hit_e_value (synthetic_hit i) = i" for i
    by (simp add: hit_e_value_def synthetic_hit_def)
  have s: "sorted (map hit_e_value xs)" by (simp add: xs_def)
  have st: "set xs = synthetic_hit ` {0..<n}" by (auto simp: xs_def)
  have kk: "map hit_e_value (map synthetic_hit zs) = zs" for zs
    by (induction zs) (simp_all add: k)
  have "mset (map hit_e_value xs) = mset (map hit_e_value (map synthetic_hit (rev [0..<n])))"
    unfolding xs_def by (simp only: mset_map mset_sort)
  also have "\<dots> = mset [0..<n]"
    unfolding kk by simp
  finally have ms: "mset (map hit_e_value xs) = mset [0..<n]" .
  have "map hit_e_value xs = sort (map hit_e_value xs)"
    using s by (simp add: sorted_sort_id)
  also have "\<dots> = sort [0..<n]"
    using ms by (metis mset_sort sorted_sort properties_for_sort)
  also have "\<dots> = [0..<n]" by (simp add: sorted_sort_id)
  finally have keys: "map hit_e_value xs = [0..<n]" .
  have "\<forall>h \<in> set xs. synthetic_hit (hit_e_value h) = h"
    using st by (auto simp: k)
  then have "map synthetic_hit (map hit_e_value xs) = xs"
    by (simp add: map_idI)
  with keys show ?thesis by (simp add: xs_def)
qed

text \<open>
  Claim C3. When the hits of one database are assembled and there is at least one hit, the
  call returns, and the returned rows, deletion rows and names are those of a list \<open>kept\<close>
  which, followed by a list \<open>dropped\<close>, is the list of all hits of the database sorted
  (stably) by ascending e-value. So \<open>kept\<close> is in ascending order, the two lists are a
  rearrangement of all hits, and no kept hit has a larger e-value than a dropped one. For
  \<open>mgnify\<close> the first 501 hits are kept (all of them when there are fewer); for every other
  database none is dropped. So 600 \<open>mgnify\<close> hits give the 501 hits of lowest e-value, in
  ascending order. When a target name has no e-value the call raises \<open>KeyError\<close>, and with
  no hit at all it raises \<open>ValueError\<close>.
\<close>

theorem db_hits_sorted_truncated:
  "case unsorted_results 0 db_results of
     Inl e \<Rightarrow> db_hits db_name db_results = Inl e
   | Inr unsorted \<Rightarrow>
       if unsorted = [] then db_hits db_name db_results = Inl ValueError
       else \<exists>kept dropped.
              db_hits db_name db_results =
                Inr (map hit_msa kept, map hit_deletion kept, map hit_name kept) \<and>
              kept @ dropped = sort_key hit_e_value unsorted \<and>
              sorted (map hit_e_value kept) \<and>
              mset kept + mset dropped = mset unsorted \<and>
              (\<forall>k \<in> set kept. \<forall>d \<in> set dropped. hit_e_value k \<le> hit_e_value d) \<and>
              (if db_name = ''mgnify'' then length kept = min 501 (length unsorted)
               else dropped = []) \<and>
              (db_name = ''mgnify'' \<and> length unsorted = 600 \<longrightarrow> length kept = 501)"
proof (cases "unsorted_results 0 db_results")
  case (Inl e)
  then show ?thesis by (simp add: db_hits_def)
next
  case (Inr unsorted)
  define srt where "srt = sort_key hit_e_value unsorted"
  have s: "sorted (map hit_e_value srt)" by (simp add: srt_def)
  have m: "mset srt = mset unsorted" by (simp add: srt_def)
  have l: "length srt = length unsorted" by (simp add: srt_def)
  show ?thesis
  proof (cases "unsorted = []")
    case True
    with Inr show ?thesis by (simp add: db_hits_def)
  next
    case False
    then have ne: "srt \<noteq> []" using l by auto
    have "\<exists>kept dropped.
              db_hits db_name db_results =
                Inr (map hit_msa kept, map hit_deletion kept, map hit_name kept) \<and>
              kept @ dropped = srt \<and>
              sorted (map hit_e_value kept) \<and>
              mset kept + mset dropped = mset unsorted \<and>
              (\<forall>k \<in> set kept. \<forall>d \<in> set dropped. hit_e_value k \<le> hit_e_value d) \<and>
              (if db_name = ''mgnify'' then length kept = min 501 (length unsorted)
               else dropped = []) \<and>
              (db_name = ''mgnify'' \<and> length unsorted = 600 \<longrightarrow> length kept = 501)"
    proof (cases "db_name = ''mgnify''")
      case True
      define kept where "kept = take 501 srt"
      define dropped where "dropped = drop 501 srt"
      from Inr True ne have r: "db_hits db_name db_results =
                Inr (map hit_msa kept, map hit_deletion kept, map hit_name kept)"
        by (simp add: db_hits_def Let_def srt_def[symmetric] kept_def mgnify_max_hits_def take_map)
      have "sorted (take 501 (map hit_e_value srt))"
        using s by (rule sorted_wrt_take)
      then have "sorted (map hit_e_value kept)"
        by (simp add: kept_def take_map)
      moreover have "mset kept + mset dropped = mset unsorted"
        unfolding kept_def dropped_def by (simp flip: mset_append add: m)
      moreover have "\<forall>k \<in> set kept. \<forall>d \<in> set dropped. hit_e_value k \<le> hit_e_value d"
        unfolding kept_def dropped_def by (rule sorted_take_drop_le[OF s])
      moreover have "length kept = min 501 (length unsorted)"
        by (simp add: kept_def l min.commute)
      moreover have "kept @ dropped = srt"
        by (simp add: kept_def dropped_def)
      ultimately show ?thesis using r True
        by (intro exI[of _ kept] exI[of _ dropped]) auto
    next
      case False
      from Inr False ne have r: "db_hits db_name db_results =
                Inr (map hit_msa srt, map hit_deletion srt, map hit_name srt)"
        by (simp add: db_hits_def Let_def srt_def[symmetric])
      show ?thesis using r False s m
        by (intro exI[of _ srt] exI[of _ "[]"]) auto
    qed
    with Inr False show ?thesis by (simp add: srt_def)
  qed
qed

theorem db_hits_sorted_truncated_witness:
  "db_hits ''mgnify'' [synthetic_chunk 600] =
     Inr (map (hit_msa \<circ> synthetic_hit) [0..<501],
          map (hit_deletion \<circ> synthetic_hit) [0..<501],
          map (hit_name \<circ> synthetic_hit) [0..<501])
   \<and> db_hits ''uniref90'' [synthetic_chunk 600] =
     Inr (map (hit_msa \<circ> synthetic_hit) [0..<600],
          map (hit_deletion \<circ> synthetic_hit) [0..<600],
          map (hit_name \<circ> synthetic_hit) [0..<600])"
proof -
  define unsorted where "unsorted = map synthetic_hit (rev [0..<600])"
  have u: "unsorted_results 0 [synthetic_chunk 600] = Inr unsorted"
    by (simp only: synthetic_unsorted unsorted_def)
  have ne: "unsorted \<noteq> []" and len: "length unsorted = 600"
    by (simp_all add: unsorted_def)
  have srt: "sort_key hit_e_value unsorted = map synthetic_hit [0..<600]"
    by (simp only: synthetic_sorted unsorted_def)
  from db_hits_sorted_truncated [where db_name = "''mgnify''" and db_results = "[synthetic_chunk 600]"]
  obtain kept dropped :: "nat hit list" where
    r1: "db_hits ''mgnify'' [synthetic_chunk 600] =
           Inr (map hit_msa kept, map hit_deletion kept, map hit_name kept)"
    and a1: "kept @ dropped = map synthetic_hit [0..<600]" and l1: "length kept = 501"
    unfolding u sum.case srt using ne len by auto
  have "kept = take (length kept) (kept @ dropped)" by simp
  also have "\<dots> = take 501 (map synthetic_hit [0..<600])"
    by (simp only: a1 l1)
  also have "\<dots> = map synthetic_hit [0..<501]"
    by (simp add: take_map)
  finally have k1: "kept = map synthetic_hit [0..<501]" .
  from db_hits_sorted_truncated [where db_name = "''uniref90''" and db_results = "[synthetic_chunk 600]"]
  obtain kept' :: "nat hit list" where
    r2: "db_hits ''uniref90'' [synthetic_chunk 600] =
           Inr (map hit_msa kept', map hit_deletion kept', map hit_name kept')"
    and a2: "kept' = map synthetic_hit [0..<600]"
    unfolding u sum.case srt using ne by auto
  show ?thesis
    unfolding r1 r2 k1 a2 by (simp only: map_map simp_thms)
qed

subsection \<open>The cache of \<open>run_jackhmmer\<close>\<close>

lemma assemble_cache:
  "assemble path dbs b0 c0 = Inr (b, c', out) \<Longrightarrow>
     (dbs = [] \<and> b = b0 \<and> c' = c0) \<or> c' = Cached b"
proof (induction dbs arbitrary: b0 c0 out)
  case Nil
  then show ?case by simp
next
  case (Cons d dbs)
  obtain db_name db_results where d: "d = (db_name, db_results)" by (cases d)
  from Cons.prems d obtain m dm n where h: "db_hits db_name db_results = Inr (m, dm, n)"
    by (cases "db_hits db_name db_results") auto
  define b1 where "b1 = \<lparr> b_msas = b_msas b0 @ [m],
      b_deletion_matrices = b_deletion_matrices b0 @ [dm], b_names = b_names b0 @ [n] \<rparr>"
  from Cons.prems d h obtain out' where r: "assemble path dbs b1 (Cached b1) = Inr (b, c', out')"
    by (cases "assemble path dbs b1 (Cached b1)") (auto simp: b1_def Let_def)
  from Cons.IH[OF r] show ?case by auto
qed

text \<open>
  Claim C5, as the code has it. With a cache file that holds a bundle, the call returns
  that bundle, leaves the file as it is and its only effects are writing the query file and
  reading the cache: no network access. With no cache file the result comes from the fresh
  search, which queries the three databases and leaves the returned bundle in the cache.
  With a cache file that cannot be deserialized the call ends in the exception of
  \<open>pickle.load\<close>.
\<close>

theorem run_jackhmmer_cache:
  "(case c of
      Cached b \<Rightarrow>
        run_jackhmmer race query c sequence0 p =
          Inr (b, c, [WriteFile (p @ ''.fasta''), ReadFile (p @ ''.jackhmmer.pickle'')])
    | Corrupt \<Rightarrow> run_jackhmmer race query c sequence0 p = Inl UnpicklingError
    | Missing \<Rightarrow>
        (case run_jackhmmer race query c sequence0 p of
           Inl e \<Rightarrow> True
         | Inr (b, c', out) \<Rightarrow>
             c' = Cached b \<and>
             (\<exists>source. race = Inr source \<and>
                set (map (\<lambda>f. Network (db_url source f))
                      [''uniref90_2021_03.fasta'', ''bfd-first_non_consensus_sequences.fasta'',
                       ''mgy_clusters_2019_05.fasta'']) \<subseteq> set out)))"
proof (cases c)
  case Missing
  show ?thesis
  proof (cases "run_jackhmmer race query c sequence0 p")
    case (Inl e)
    with Missing show ?thesis by simp
  next
    case (Inr r)
    obtain b c' out where r: "r = (b, c', out)" by (cases r)
    from Inr Missing obtain source where s: "race = Inr source"
      by (cases race) (auto simp: run_jackhmmer_def)
    define dbs where "dbs = [(''uniref90'', query (db_url source ''uniref90_2021_03.fasta'') sequence0),
       (''smallbfd'', query (db_url source ''bfd-first_non_consensus_sequences.fasta'') sequence0),
       (''mgnify'', query (db_url source ''mgy_clusters_2019_05.fasta'') sequence0)]"
    define b0 where "b0 = \<lparr> b_msas = [], b_deletion_matrices = [], b_names = [] \<rparr>"
    from Inr Missing s r obtain out' where
      a: "assemble (p @ ''.jackhmmer.pickle'') dbs b0 Missing = Inr (b, c', out')"
      and o: "out = [WriteFile (p @ ''.fasta'')] @
                 map (\<lambda>s. Network (test_url s)) ['''', ''-europe'', ''-asia''] @
                 map Network [db_url source ''uniref90_2021_03.fasta'',
                   db_url source ''bfd-first_non_consensus_sequences.fasta'',
                   db_url source ''mgy_clusters_2019_05.fasta''] @ out'"
      by (cases "assemble (p @ ''.jackhmmer.pickle'') dbs b0 Missing")
         (auto simp: run_jackhmmer_def Let_def dbs_def b0_def)
    from assemble_cache[OF a] have "c' = Cached b" by (simp add: dbs_def)
    with Inr Missing r s o show ?thesis by simp
  qed
qed (simp_all add: run_jackhmmer_def)

theorem run_jackhmmer_cache_witness:
  "case run_jackhmmer (Inr ''-europe'') sample_query Missing ''AC'' ''tmp/abc'' of
     Inl e \<Rightarrow> False
   | Inr (b, c', out) \<Rightarrow> c' = Cached b \<and> length (b_msas b) = 3
       \<and> Network (db_url ''-europe'' ''mgy_clusters_2019_05.fasta'') \<in> set out"
proof -
  have ev: "case run_jackhmmer (Inr ''-europe'') sample_query Missing ''AC'' ''tmp/abc'' of
     Inl e \<Rightarrow> False
   | Inr (b, c', out) \<Rightarrow> length (b_msas b) = 3
       \<and> Network (db_url ''-europe'' ''mgy_clusters_2019_05.fasta'') \<in> set out"
    by code_simp
  show ?thesis
    using ev run_jackhmmer_cache [where c = Missing and race = "Inr ''-europe''"
        and query = sample_query and ?sequence0.0 = "''AC''" and p = "''tmp/abc''"]
    by (auto split: sum.splits)
qed

text \<open>The claim as stated fails at a cache file that cannot be deserialized: the call
  raises, although the same call without a cache file returns a result.\<close>

theorem run_jackhmmer_corrupt_cache_fails:
  "run_jackhmmer (Inr ''-europe'') sample_query Corrupt ''AC'' ''tmp/abc'' = Inl UnpicklingError
   \<and> \<not> isl (run_jackhmmer (Inr ''-europe'') sample_query Missing ''AC'' ''tmp/abc'')"
  by code_simp

subsection \<open>Subsampling\<close>

lemma subsample_indices:
  assumes perm: "mset p = mset [1..<N]" and gt: "N' < N"
  defines "idx \<equiv> take N' (0 # p)"
  shows "length idx = N'" and "distinct idx" and "\<forall>i \<in> set idx. i < N"
    and "0 < N' \<longrightarrow> idx ! 0 = 0"
proof -
  from perm have sp: "set p = {1..<N}" by (metis mset_eq_setD set_upt)
  from perm have lp: "length p = N - 1" by (metis mset_eq_length length_upt)
  from perm have dp: "distinct p" by (metis distinct_upt mset_eq_imp_distinct_iff)
  have d: "distinct (0 # p)" using sp dp by simp
  have b: "\<forall>i \<in> set (0 # p). i < N" using sp gt by auto
  show "length idx = N'" using lp gt by (simp add: idx_def)
  show "distinct idx" unfolding idx_def by (rule distinct_take[OF d])
  show "\<forall>i \<in> set idx. i < N" unfolding idx_def using b by (meson in_set_takeD)
  show "0 < N' \<longrightarrow> idx ! 0 = 0" by (cases N') (simp_all add: idx_def)
qed

lemma select_rows_ok:
  "\<forall>i \<in> set idx. i < length xs \<Longrightarrow> select_rows xs idx = Inr (map (\<lambda>i. xs ! i) idx)"
  by (simp add: select_rows_def list_all_iff)

text \<open>Without residues the budget \<open>3E7/L\<close> is a division by zero, for every dictionary.\<close>

lemma do_subsample_msa_no_residues:
  "residue_index F = [] \<Longrightarrow> do_subsample_msa permutation F random_seed = Inl ZeroDivisionError"
  by (simp add: do_subsample_msa_def)

text \<open>
  Claim C4, as the code has it. For a feature dictionary with \<open>N\<close> MSA rows, as many
  deletion rows and a sequence of length \<open>L \<ge> 1\<close>, with budget \<open>N' = 30000000 div L\<close>: if
  \<open>N > N'\<close> the function returns the dictionary with the rows and deletion rows at the same
  \<open>N'\<close> distinct indices, every entry of \<open>num_alignments\<close> set to \<open>N'\<close> and all other keys
  unchanged, whatever the seed and the permutation drawn; the first index is 0, so row 0 is
  retained, whenever \<open>N' \<ge> 1\<close>. If \<open>N \<le> N'\<close> the dictionary is returned unchanged.
\<close>

theorem do_subsample_msa_budget:
  assumes perm: "\<forall>xs. mset (permutation random_seed xs) = mset xs"
    and rows: "length (deletion_matrix_int F) = length (msa F)"
    and L: "residue_index F \<noteq> []"
  shows "if length (msa F) > 30000000 div length (residue_index F) then
           \<exists>idx out.
             do_subsample_msa permutation F random_seed =
               Inr (F\<lparr> msa := map (\<lambda>i. msa F ! i) idx,
                       deletion_matrix_int := map (\<lambda>i. deletion_matrix_int F ! i) idx,
                       num_alignments :=
                         replicate (length (num_alignments F))
                           (int (30000000 div length (residue_index F))) \<rparr>, out)
             \<and> length idx = 30000000 div length (residue_index F)
             \<and> distinct idx
             \<and> (\<forall>i \<in> set idx. i < length (msa F))
             \<and> (0 < 30000000 div length (residue_index F) \<longrightarrow> idx ! 0 = 0)
         else do_subsample_msa permutation F random_seed = Inr (F, [])"
proof (cases "length (msa F) > 30000000 div length (residue_index F)")
  case True
  define N where "N = length (msa F)"
  define N' where "N' = 30000000 div length (residue_index F)"
  define idx where "idx = take N' (0 # permutation random_seed [1..<N])"
  define out where "out = [Print (''whhhaaa... too many sequences ('' @ str_nat N @
                       '') subsampling to '' @ str_nat N')]"
  from perm have p: "mset (permutation random_seed [1..<N]) = mset [1..<N]" by blast
  from True have gt: "N' < N" by (simp add: N_def N'_def)
  note i = subsample_indices[OF p gt, folded idx_def]
  have s1: "select_rows (msa F) idx = Inr (map (\<lambda>i. msa F ! i) idx)"
    by (rule select_rows_ok) (use i(3) in \<open>simp add: N_def\<close>)
  have s2: "select_rows (deletion_matrix_int F) idx = Inr (map (\<lambda>i. deletion_matrix_int F ! i) idx)"
    by (rule select_rows_ok) (use i(3) rows in \<open>simp add: N_def\<close>)
  have L0: "length (residue_index F) \<noteq> 0" using L by simp
  have "do_subsample_msa permutation F random_seed =
          (case select_rows (msa F) idx of
             Inl e \<Rightarrow> Inl e
           | Inr rows \<Rightarrow>
              (case select_rows (deletion_matrix_int F) idx of
                 Inl e \<Rightarrow> Inl e
               | Inr drows \<Rightarrow>
                  Inr (F\<lparr> msa := rows, deletion_matrix_int := drows,
                          num_alignments := replicate (length (num_alignments F)) (int N') \<rparr>,
                       out)))"
    unfolding do_subsample_msa_def Let_def idx_def out_def N_def N'_def
    using True L0 by (simp only: if_True if_False)
  then have r: "do_subsample_msa permutation F random_seed =
          Inr (F\<lparr> msa := map (\<lambda>i. msa F ! i) idx,
                  deletion_matrix_int := map (\<lambda>i. deletion_matrix_int F ! i) idx,
                  num_alignments := replicate (length (num_alignments F)) (int N') \<rparr>, out)"
    by (simp only: s1 s2 sum.case)
  have "\<exists>idx out.
             do_subsample_msa permutation F random_seed =
               Inr (F\<lparr> msa := map (\<lambda>i. msa F ! i) idx,
                       deletion_matrix_int := map (\<lambda>i. deletion_matrix_int F ! i) idx,
                       num_alignments := replicate (length (num_alignments F)) (int N') \<rparr>, out)
             \<and> length idx = N'
             \<and> distinct idx
             \<and> (\<forall>i \<in> set idx. i < N)
             \<and> (0 < N' \<longrightarrow> idx ! 0 = 0)"
    using r i by (intro exI[of _ idx] exI[of _ out] conjI)
  then show ?thesis
    using True unfolding N_def N'_def by (simp only: if_True)
next
  case False
  have L0: "length (residue_index F) \<noteq> 0" using L by simp
  have "do_subsample_msa permutation F random_seed = Inr (F, [])"
    unfolding do_subsample_msa_def Let_def using False L0 by (simp only: if_False)
  with False show ?thesis by (simp only: if_False)
qed

theorem do_subsample_msa_budget_witness:
  "\<exists>idx out.
     do_subsample_msa reverse_permutation long_features 7 =
       Inr (long_features\<lparr> msa := map (\<lambda>i. msa long_features ! i) idx,
               deletion_matrix_int := map (\<lambda>i. deletion_matrix_int long_features ! i) idx,
               num_alignments := [3] \<rparr>, out)
     \<and> length idx = 3 \<and> idx ! 0 = 0"
proof -
  have perm: "\<forall>xs. mset (reverse_permutation 7 xs) = mset xs"
    by (simp add: reverse_permutation_def)
  have rows: "length (deletion_matrix_int long_features) = length (msa long_features)"
    by (simp add: long_features_def)
  have L: "residue_index long_features \<noteq> []"
    by (simp add: long_features_def)
  have q: "30000000 div length (residue_index long_features) = 3"
    by (simp add: long_features_def)
  have n: "length (msa long_features) = 4" "length (num_alignments long_features) = 1"
    by (simp_all add: long_features_def)
  have r: "replicate 1 (int 3) = [3]" by simp
  have lt: "((3::nat) < 4) = True" and pos: "(0 < (3::nat)) = True" by simp_all
  note t = do_subsample_msa_budget [where permutation = reverse_permutation and random_seed = 7
      and F = long_features, OF perm rows L, unfolded q n r lt pos if_True]
  from t show ?thesis by blast
qed

text \<open>The claim as stated fails where the budget is 0: a single row over a sequence of
  30000001 residues is subsampled to no row at all, so row 0 is not retained. Without
  residues the budget does not exist and the call raises.\<close>

theorem do_subsample_msa_budget_zero:
  "do_subsample_msa reverse_permutation over_budget_features 0 =
     Inr (over_budget_features\<lparr> msa := [], deletion_matrix_int := [], num_alignments := [0] \<rparr>,
          [Print ''whhhaaa... too many sequences (1) subsampling to 0''])
   \<and> do_subsample_msa reverse_permutation empty_features 0 = Inl ZeroDivisionError"
proof -
  have s: "str_nat 1 = ''1''" "str_nat 0 = ''0''" by code_simp+
  have l: "length (residue_index over_budget_features) = 30000001"
    "length (msa over_budget_features) = 1"
    "length (num_alignments over_budget_features) = 1"
    by (simp_all add: over_budget_features_def)
  have d: "(30000000::nat) div 30000001 = 0" by simp
  have sel: "select_rows xs (take 0 ys) = Inr []" for xs :: "int list list" and ys
    by (simp add: select_rows_def)
  have a: "do_subsample_msa reverse_permutation over_budget_features 0 =
     Inr (over_budget_features\<lparr> msa := [], deletion_matrix_int := [], num_alignments := [0] \<rparr>,
          [Print ''whhhaaa... too many sequences (1) subsampling to 0''])"
    unfolding do_subsample_msa_def Let_def l d sel s by simp
  have b: "do_subsample_msa reverse_permutation empty_features 0 = Inl ZeroDivisionError"
    by (simp add: do_subsample_msa_def empty_features_def)
  from a b show ?thesis by (rule conjI)
qed

subsection \<open>The frame of \<open>prep_filter\<close>\<close>

lemma normalize_trim_empty: "normalize_trim [] = []"
  by (simp add: normalize_trim_def upper_def sub_outside_def sub_leading_def sub_trailing_def
      strip_end_def)

lemma store_copy_frame:
  "a < length h \<Longrightarrow> ((h @ [d])[length h := d']) ! a = h ! a"
  by (simp add: nth_append)

text \<open>
  Claim C6. For a job at a valid address \<open>I\<close>: when the trim string normalizes to the empty
  string and neither threshold is positive, in particular for an empty trim string and zero
  thresholds, \<open>prep_filter\<close> returns the address \<open>I\<close> itself and leaves the store as it is.
  When a transform is requested and the call returns, the result is a new address: every
  dictionary that existed before the call, the original \<open>I\<close> among them, is unchanged. The
  call can fail only in the trim step.
\<close>

theorem prep_filter_frame:
  assumes "I < length h"
  shows "(trim0 = [] \<and> cov = 0 \<and> qid = 0 \<longrightarrow>
            prep_filter trim_inputs cov_qid_filter h I trim0 trim_inverse cov qid verbose =
              Inr (h, I, []))
         \<and> (case prep_filter trim_inputs cov_qid_filter h I trim0 trim_inverse cov qid verbose of
               Inl e \<Rightarrow> normalize_trim trim0 \<noteq> []
             | Inr (h', r, out) \<Rightarrow>
                 (if normalize_trim trim0 = [] \<and> cov \<le> 0 \<and> qid \<le> 0
                  then r = I \<and> h' = h \<and> out = []
                  else r = length h \<and> r \<noteq> I \<and> length h' = Suc (length h) \<and>
                       (\<forall>a < length h. h' ! a = h ! a)))"
proof (intro conjI impI)
  assume "trim0 = [] \<and> cov = 0 \<and> qid = 0"
  then show "prep_filter trim_inputs cov_qid_filter h I trim0 trim_inverse cov qid verbose =
      Inr (h, I, [])"
    by (simp add: prep_filter_def normalize_trim_empty)
next
  define trim where "trim = normalize_trim trim0"
  define h1 where "h1 = h @ [h ! I]"
  show "case prep_filter trim_inputs cov_qid_filter h I trim0 trim_inverse cov qid verbose of
               Inl e \<Rightarrow> normalize_trim trim0 \<noteq> []
             | Inr (h', r, out) \<Rightarrow>
                 (if normalize_trim trim0 = [] \<and> cov \<le> 0 \<and> qid \<le> 0
                  then r = I \<and> h' = h \<and> out = []
                  else r = length h \<and> r \<noteq> I \<and> length h' = Suc (length h) \<and>
                       (\<forall>a < length h. h' ! a = h ! a))"
  proof (cases "trim \<noteq> [] \<or> cov > 0 \<or> qid > 0")
    case False
    then show ?thesis
      by (simp add: prep_filter_def trim_def[symmetric])
  next
    case req: True
    have ne: "\<not> (trim = [] \<and> cov \<le> 0 \<and> qid \<le> 0)" using req by auto
    have fr: "\<forall>a < length h. (h1[length h := d]) ! a = h ! a" for d
      by (simp add: h1_def nth_append)
    have len: "length h1 = Suc (length h)"
      by (simp add: h1_def)
    show ?thesis
    proof (cases "trim = []")
      case True
      with req have f: "cov > 0 \<or> qid > 0" by simp
      show ?thesis
        using True f ne fr len assms
        by (simp add: prep_filter_def trim_def[symmetric] h1_def[symmetric] Let_def)
    next
      case nt: False
      show ?thesis
      proof (cases "trim_step trim_inputs trim trim_inverse verbose (h1 ! length h)")
        case (Inl e)
        with nt show ?thesis
          by (simp add: prep_filter_def trim_def[symmetric] h1_def[symmetric] Let_def)
      next
        case (Inr p)
        obtain d out where p: "p = (d, out)" by (cases p)
        have "\<forall>a < length h. (h1[length h := d, length h := d']) ! a = h ! a" for d'
          by (simp add: h1_def nth_append)
        with Inr p nt ne fr len assms show ?thesis
          by (simp add: prep_filter_def trim_def[symmetric] h1_def[symmetric] Let_def)
      qed
    qed
  qed
qed

theorem prep_filter_frame_witness:
  "prep_filter sample_trim_inputs sample_cov_qid_filter [sample_job] 0 '''' False 0 0 False =
     Inr ([sample_job], 0, [])
   \<and> (case prep_filter sample_trim_inputs sample_cov_qid_filter [sample_job] 0 ''1-2'' False 50 0
              True of
         Inl e \<Rightarrow> False
       | Inr (h', r, out) \<Rightarrow> r = 1 \<and> h' ! 0 = sample_job \<and> msas (h' ! 1) = [[''AC'']])"
proof -
  have v: "(0::nat) < length [sample_job]" by simp
  have ev: "case prep_filter sample_trim_inputs sample_cov_qid_filter [sample_job] 0 ''1-2'' False 50 0
              True of
         Inl e \<Rightarrow> False
       | Inr (h', r, out) \<Rightarrow> msas (h' ! 1) = [[''AC'']]"
    by code_simp
  have t: "normalize_trim ''1-2'' \<noteq> []" by code_simp
  show ?thesis
    using ev t
      prep_filter_frame [OF v, where trim_inputs = sample_trim_inputs
        and cov_qid_filter = sample_cov_qid_filter and ?trim0.0 = "''''" and trim_inverse = False
        and cov = 0 and qid = 0 and verbose = False]
      prep_filter_frame [OF v, where trim_inputs = sample_trim_inputs
        and cov_qid_filter = sample_cov_qid_filter and ?trim0.0 = "''1-2''" and trim_inverse = False
        and cov = 50 and qid = 0 and verbose = True]
    by (auto split: sum.splits)
qed

subsection \<open>The reset at the start of \<open>prep_msa\<close>\<close>

text \<open>
  Claim C10. \<open>prep_msa\<close> starts from empty lists under \<open>msas\<close> and \<open>deletion_matrices\<close>: the
  job that is returned, and everything else the call does, is the same whatever the two
  lists held before, so no track of an earlier call is carried over.
\<close>

theorem prep_msa_resets_tracks:
  "prep_msa E hhfilter (I\<lparr> msas := m, deletion_matrices := d \<rparr>) msa_method add_custom_msa
       msa_format pair_mode pair_cov pair_qid verbose =
   prep_msa E hhfilter (I\<lparr> msas := [], deletion_matrices := [] \<rparr>) msa_method add_custom_msa
       msa_format pair_mode pair_cov pair_qid verbose"
  by (simp add: prep_msa_def)

theorem prep_msa_resets_tracks_witness:
  "case prep_msa sample_env keep_first
         (sample_job\<lparr> msas := [[''ACGT'', ''A-G-'']],
                       deletion_matrices := [[[0, 0, 0, 0], [0, 1, 0, 0]]] \<rparr>)
         ''single_sequence'' False ''fas'' ''unpaired'' 50 20 False of
     Inl e \<Rightarrow> False
   | Inr (I', out) \<Rightarrow> msas I' = [[''ACGT'']] \<and> deletion_matrices I' = [[[0, 0, 0, 0]]]"
proof -
  have "case prep_msa sample_env keep_first
         (sample_job\<lparr> msas := [], deletion_matrices := [] \<rparr>)
         ''single_sequence'' False ''fas'' ''unpaired'' 50 20 False of
     Inl e \<Rightarrow> False
   | Inr (I', out) \<Rightarrow> msas I' = [[''ACGT'']] \<and> deletion_matrices I' = [[[0, 0, 0, 0]]]"
    by code_simp
  then show ?thesis
    by (simp only: prep_msa_resets_tracks
          [where m = "[[''ACGT'', ''A-G-'']]" and d = "[[[0, 0, 0, 0], [0, 1, 0, 0]]]"])
qed

subsection \<open>The pairing stage\<close>

text \<open>Every entry of \<open>_data\<close> ends in an exception: \<open>NameError\<close> at line 293 or 299 once the
  answer of the search is there, the exception of the search itself, or
  \<open>UnboundLocalError\<close> at line 303 for a method that is neither search.\<close>

lemma pair_hits_raises:
  "\<exists>e. pair_hits E msa_method A3M_LINES pair_qid pair_cov a seq = Inl e"
  by (auto simp: pair_hits_def pairmsa_parse_a3m_def pairmsa_get_uni_jackhmmer_def
      split: sum.splits)

lemma pair_hits_name_error:
  "pair_hits E ''mmseqs2'' A3M_LINES pair_qid pair_cov a seq =
     (if a < length A3M_LINES then Inl NameError else Inl IndexError)"
  "pair_hits E ''jackhmmer'' A3M_LINES pair_qid pair_cov a seq =
     (case jackhmmer E seq of Inl e \<Rightarrow> Inl e | Inr b \<Rightarrow> Inl NameError)"
  by (auto simp: pair_hits_def pairmsa_parse_a3m_def pairmsa_get_uni_jackhmmer_def index_def
      split: sum.splits)

lemma pair_data_raises:
  "ss \<noteq> [] \<Longrightarrow> \<exists>e. pair_data E msa_method A3M_LINES pair_qid pair_cov a ss = Inl e"
proof (cases ss)
  case Nil
  assume "ss \<noteq> []"
  with Nil show ?thesis by simp
next
  case (Cons seq rest)
  from pair_hits_raises[of E msa_method A3M_LINES pair_qid pair_cov a seq]
  obtain e where "pair_hits E msa_method A3M_LINES pair_qid pair_cov a seq = Inl e" ..
  with Cons show ?thesis by simp
qed

lemma paired_stage_raises:
  assumes "seqs I \<noteq> []"
  shows "\<exists>e. paired_stage E hhfilter msa_method pair_cov pair_qid verbose I = Inl e"
proof -
  define A where "A = (if msa_method = ''mmseqs2'' then mmseqs2_nofilter E (seqs I) else [])"
  from pair_data_raises[OF assms, of E msa_method A pair_qid pair_cov 0]
  obtain e where "pair_data E msa_method A pair_qid pair_cov 0 (seqs I) = Inl e" ..
  then show ?thesis by (simp add: paired_stage_def Let_def A_def)
qed

text \<open>The unpaired stage leaves the chains of the job as they are.\<close>

lemma add_tracks_seqs: "add_tracks I n ts = Inr I' \<Longrightarrow> seqs I' = seqs I"
proof (induction ts arbitrary: I)
  case Nil
  then show ?case by simp
next
  case (Cons x ts)
  obtain msa' mtx' where x: "x = (msa', mtx')" by (cases x)
  from Cons.prems x obtain t where
    "add_tracks (append_track I t) n ts = Inr I'"
    by (auto split: sum.splits)
  from Cons.IH[OF this] show ?case by (simp add: append_track_def)
qed

lemma unpaired_loop_seqs:
  "unpaired_loop E msa_method A3M n ss I = Inr (I', out) \<Longrightarrow> seqs I' = seqs I"
proof (induction ss arbitrary: n I out)
  case Nil
  then show ?case by simp
next
  case (Cons seq rest)
  from Cons.prems obtain ts o1 I1 o2 where
    a: "add_tracks I n ts = Inr I1"
    and l: "unpaired_loop E msa_method A3M (Suc n) rest I1 = Inr (I', o2)"
    by (auto split: sum.splits)
  from Cons.IH[OF l] add_tracks_seqs[OF a] show ?case by simp
qed

lemma unpaired_stage_seqs:
  "unpaired_stage E msa_method I = Inr (I', out) \<Longrightarrow> seqs I' = seqs I"
  by (auto simp: unpaired_stage_def Let_def split: sum.splits dest: unpaired_loop_seqs)

lemma custom_step_seqs:
  "custom_step E I add_custom_msa msa_format = Inr (I', out) \<Longrightarrow> seqs I' = seqs I"
  by (auto simp: custom_step_def Let_def append_track_def split: if_splits sum.splits)

text \<open>So a call that enters the pairing stage (more than one chain, \<open>pair_mode\<close> one of
  \<open>paired\<close> and \<open>unpaired+paired\<close>, a method other than \<open>precomputed\<close> and
  \<open>single_sequence\<close>) returns no job, whatever the searches and the filter answer.\<close>

lemma prep_msa_pairing_raises:
  assumes n: "length (seqs I) > 1"
    and pm: "pair_mode = ''paired'' \<or> pair_mode = ''unpaired+paired''"
    and m1: "msa_method \<noteq> ''precomputed''" and m2: "msa_method \<noteq> ''single_sequence''"
  shows "\<exists>e. prep_msa E hhfilter I msa_method add_custom_msa msa_format pair_mode pair_cov pair_qid
                verbose = Inl e"
proof (rule ccontr)
  assume "\<not> ?thesis"
  then obtain r where r: "prep_msa E hhfilter I msa_method add_custom_msa msa_format pair_mode
                            pair_cov pair_qid verbose = Inr r"
    by (cases "prep_msa E hhfilter I msa_method add_custom_msa msa_format pair_mode pair_cov pair_qid
                verbose") auto
  define I0 where "I0 = I\<lparr> msas := [], deletion_matrices := [] \<rparr>"
  from r obtain I1 out1 where c: "custom_step E I0 add_custom_msa msa_format = Inr (I1, out1)"
    by (cases "custom_step E I0 add_custom_msa msa_format")
       (auto simp: prep_msa_def I0_def[symmetric])
  from custom_step_seqs[OF c] have s1: "seqs I1 = seqs I" by (simp add: I0_def)
  define u where "u = (if length (seqs I1) = 1 \<or> sublist ''unpaired'' pair_mode
                       then unpaired_stage E msa_method I1 else Inr (I1, []))"
  define p where "p = (\<lambda>I2::'a job_scheme. if length (seqs I2) > 1 \<and>
                                   (pair_mode = ''paired'' \<or> pair_mode = ''unpaired+paired'')
                                then paired_stage E hhfilter msa_method pair_cov pair_qid verbose I2
                                else Inr (I2, []))"
  define body where "body = (case u of Inl e \<Rightarrow> Inl e
                      | Inr (I2, out2) \<Rightarrow>
                         (case p I2 of Inl e \<Rightarrow> Inl e
                          | Inr (I3, out3) \<Rightarrow> Inr (I3, out2 @ out3)))"
  have e: "prep_msa E hhfilter I msa_method add_custom_msa msa_format pair_mode pair_cov pair_qid verbose =
          (case body of Inl e \<Rightarrow> Inl e
           | Inr (I4, out4) \<Rightarrow>
               Inr (I4, out1 @ out4 @ [WriteFile (output_dir I4 @ ''/msa.pickle'')]))"
    unfolding prep_msa_def body_def u_def p_def Let_def I0_def[symmetric] c
    using m1 m2 by (simp only: sum.case prod.case if_False)
  from r e obtain I4 out4 where b: "body = Inr (I4, out4)"
    by (cases body) auto
  from b obtain I2 out2 where u: "u = Inr (I2, out2)"
    by (cases u) (auto simp: body_def)
  with b obtain I3 out3 where p: "p I2 = Inr (I3, out3)"
    by (cases "p I2") (auto simp: body_def)
  have "seqs I2 = seqs I1"
    using u by (auto simp: u_def split: if_splits dest: unpaired_stage_seqs)
  with s1 n have n2: "length (seqs I2) > 1" by simp
  then have "seqs I2 \<noteq> []" by auto
  from paired_stage_raises[OF this, of E hhfilter msa_method pair_cov pair_qid verbose]
  obtain e' where "paired_stage E hhfilter msa_method pair_cov pair_qid verbose I2 = Inl e'" ..
  with p n2 pm show False by (simp add: p_def)
qed

text \<open>Lines 316-337 taken alone, for any stitched pair and any two filters whose read
  succeeds: the job afterwards is the same, and the track that is appended has the query
  and then the padded row of every stitched row. The indices \<open>ok\<close> occur in the message
  only.\<close>

lemma stitched_block_filter:
  assumes "f (map (\<lambda>(x, y). x @ y) (zip (fst st) (fst (snd st)))) = Inr ok1"
    and "g (map (\<lambda>(x, y). x @ y) (zip (fst st) (fst (snd st)))) = Inr ok2"
  shows "map_sum id fst (stitched_block f verbose a b st I) =
         map_sum id fst (stitched_block g verbose a b st I)"
  using assms
  by (cases st) (auto simp: stitched_block_def Let_def split: sum.splits)

lemma stitched_block_rows:
  assumes "stitched_block hhfilter verbose a b st I = Inr (I', out)"
  shows "if fst st = [] then I' = I
         else \<exists>prs. map_err (padded_row I) (pair_rows a b st) = Inr prs \<and>
                I' = append_track I (sequence I # map fst prs,
                                     replicate (length (sequence I)) 0 # map snd prs)"
  using assms
  by (cases st)
     (auto simp: stitched_block_def Let_def padded_track_def split: sum.splits if_splits)

text \<open>
  Claim C2. The claim has every stitched row appended to the job and the filter's indices
  only counted. Lines 316-337 are written to do so, but no call of \<open>prep_msa\<close> reaches them:
  the name \<open>pairmsa\<close> is unbound, so the pairing stage raises \<open>NameError\<close> at its first use.
  For a job of two chains and the pairing modes \<open>paired\<close> and \<open>unpaired+paired\<close>, the call
  raises \<open>NameError\<close> with the method \<open>mmseqs2\<close> (line 293) and with the method \<open>jackhmmer\<close>
  (line 299), whatever the filter keeps: no pair is stitched, no count is reported and no
  job is returned.
\<close>

theorem pairing_stage_name_error:
  "prep_msa sample_env keep_all sample_job ''mmseqs2'' False ''fas'' ''paired'' 50 20 True =
     Inl NameError \<and>
   prep_msa sample_env keep_first sample_job ''mmseqs2'' False ''fas'' ''unpaired+paired'' 50 20 True =
     Inl NameError \<and>
   prep_msa sample_env keep_all sample_job ''jackhmmer'' False ''fas'' ''paired'' 50 20 True =
     Inl NameError \<and>
   prep_msa sample_env keep_first sample_job ''jackhmmer'' False ''fas'' ''unpaired+paired'' 50 20 True =
     Inl NameError"
  by code_simp


subsection \<open>Padded tracks\<close>






subsection \<open>Jobs that only gain well-formed tracks\<close>







subsection \<open>The stages of \<open>prep_msa\<close>\<close>




subsection \<open>Tracks of \<open>prep_msa\<close>\<close>



text \<open>The jobs that \<open>prep_inputs\<close> returns satisfy the two equations assumed of the job,
  and the sample environment satisfies the assumption on the alignment sources.\<close>

lemma concat_split_on: "concat (split_on c s) = remove_char c s"
proof (induction s)
  case Nil
  then show ?case by (simp add: remove_char_def)
next
  case (Cons x s)
  then show ?case
    by (cases "split_on c s") (auto simp: remove_char_def)
qed

lemma prep_inputs_invariants:
  assumes "prep_inputs get_hash listdir sequence0 jobname0 homooligomer0 clean verbose = Inr (I, out)"
  shows "lengths I = map length (seqs I) \<and> sequence I = concat (seqs I)"
proof -
  from assms obtain hs where
    "map_err py_int (split_on (CHR '':'') (normalize_homooligomer homooligomer0)) = Inr hs"
    by (cases "map_err py_int (split_on (CHR '':'') (normalize_homooligomer homooligomer0))")
       (auto simp: prep_inputs_def Let_def)
  with assms show ?thesis
    by (auto simp: prep_inputs_def Let_def concat_split_on split: prod.splits if_splits)
qed



end
